theory Spec2Isabelle
  imports
    Main
    "HOL-Library.Multiset"
    "HOL-Library.Char_ord"
    "HOL-Library.List_Lexorder"
begin

section \<open>Go strings as byte lists\<close>

text \<open>
  A Go \<open>string\<close> is a sequence of bytes; \<^typ>\<open>string\<close> (a list of 8-bit \<^typ>\<open>char\<close>)
  is the same thing. The functions of package \<open>strings\<close> that the launcher calls are
  written out here with the results the Go library gives. Indices are \<^typ>\<open>int\<close>, as
  Go's \<open>int\<close> is, because \<open>strings.Index\<close> answers \<open>-1\<close> and the launcher computes
  \<open>cutAt-1\<close> from it.
\<close>

definition strings_HasPrefix :: "string \<Rightarrow> string \<Rightarrow> bool" where
  "strings_HasPrefix s p = (take (length p) s = p)"

fun strings_Index :: "string \<Rightarrow> string \<Rightarrow> int" where
  "strings_Index [] sub = (if sub = [] then 0 else - 1)"
| "strings_Index (c # cs) sub =
     (if strings_HasPrefix (c # cs) sub then 0
      else (let i = strings_Index cs sub in if i < 0 then - 1 else i + 1))"

definition strings_Contains :: "string \<Rightarrow> string \<Rightarrow> bool" where
  "strings_Contains s sub = (0 \<le> strings_Index s sub)"

text \<open>\<open>strings.Count(s, "=")\<close> and \<open>strings.Split(s, " ")\<close> are only called with a
  one-byte separator, which is the argument of the two functions below.\<close>

definition strings_Count :: "string \<Rightarrow> char \<Rightarrow> int" where
  "strings_Count s c = int (length (filter (\<lambda>x. x = c) s))"

fun strings_Split :: "string \<Rightarrow> char \<Rightarrow> string list" where
  "strings_Split [] sep = [[]]"
| "strings_Split (c # cs) sep =
     (if c = sep then [] # strings_Split cs sep
      else (case strings_Split cs sep of
              [] \<Rightarrow> [[c]]
            | w # ws \<Rightarrow> (c # w) # ws))"

section \<open>Run-time panics\<close>

datatype panic = SliceBoundsOutOfRange int | IndexOutOfRange int

text \<open>\<open>s[:k]\<close>, \<open>xs[k:]\<close> and \<open>xs[k]\<close> with Go's bounds checks.\<close>

definition slice_to :: "'a list \<Rightarrow> int \<Rightarrow> panic + 'a list" where
  "slice_to s k =
     (if k < 0 \<or> int (length s) < k then Inl (SliceBoundsOutOfRange k)
      else Inr (take (nat k) s))"

definition slice_from :: "'a list \<Rightarrow> int \<Rightarrow> panic + 'a list" where
  "slice_from xs k =
     (if k < 0 \<or> int (length xs) < k then Inl (SliceBoundsOutOfRange k)
      else Inr (drop (nat k) xs))"

definition index_at :: "'a list \<Rightarrow> int \<Rightarrow> panic + 'a" where
  "index_at xs k =
     (if k < 0 \<or> int (length xs) \<le> k then Inl (IndexOutOfRange k)
      else Inr (xs ! nat k))"

section \<open>The command interpreter: \<open>launch\<close>\<close>

text \<open>
  What \<open>launch\<close> hands to \<open>exec.Command\<close> and \<open>cmd.Env\<close>: the program name, the
  arguments after the name, and the assignments appended to the inherited environment.
\<close>

record invocation =
  executable :: string
  arguments :: "string list"
  envOverrides :: "string list"

text \<open>The first block of \<open>launch\<close>: "trim \<open>%\<close> and everything afterwards".\<close>

definition trim_placeholder :: "string \<Rightarrow> panic + string" where
  "trim_placeholder command =
     (if strings_Contains command ''%'' then
        (let cutAt = strings_Index command ''%'' in
         if cutAt \<noteq> - 1 then slice_to command (cutAt - 1) else Inr command)
      else Inr command)"

text \<open>The \<open>for idx, item := range elements\<close> loop; the state is \<open>(envVars, cmdIdx)\<close>.\<close>

fun scan_elements :: "string list \<Rightarrow> int \<Rightarrow> string list \<times> int \<Rightarrow> string list \<times> int" where
  "scan_elements [] idx (envVars, cmdIdx) = (envVars, cmdIdx)"
| "scan_elements (item # rest) idx (envVars, cmdIdx) =
     (if strings_Contains item ''='' then
        scan_elements rest (idx + 1) (envVars @ [item], cmdIdx)
      else if \<not> strings_HasPrefix item ''-'' \<and> cmdIdx = - 1 then
        scan_elements rest (idx + 1) (envVars, idx)
      else scan_elements rest (idx + 1) (envVars, cmdIdx))"

text \<open>From \<open>envVarsNum := strings.Count(command, "=")\<close> to \<open>if cmdIdx == -1 { cmdIdx = 0 }\<close>.\<close>

definition find_command :: "string \<Rightarrow> string list \<Rightarrow> string list \<times> int" where
  "find_command command elements =
     (let envVarsNum = strings_Count command (CHR ''='');
          (envVars, cmdIdx) =
             (if 0 < envVarsNum then scan_elements elements 0 ([], - 1) else ([], - 1))
      in (envVars, if cmdIdx = - 1 then 0 else cmdIdx))"

text \<open>
  \<open>launch(command, terminal)\<close> up to \<open>cmd.Start()\<close>; \<open>term\<close> is the value of the \<open>-t\<close>
  flag. The result is the command that is started, or the panic that ends the process.
\<close>

definition launch :: "string \<Rightarrow> string \<Rightarrow> bool \<Rightarrow> panic + invocation" where
  "launch term command terminal =
     (case trim_placeholder command of
        Inl p \<Rightarrow> Inl p
      | Inr command' \<Rightarrow>
          (let elements = strings_Split command' (CHR '' '');
               (envVars, cmdIdx) = find_command command' elements
           in case index_at elements cmdIdx of
                Inl p \<Rightarrow> Inl p
              | Inr name \<Rightarrow>
                  (case slice_from elements (1 + cmdIdx) of
                     Inl p \<Rightarrow> Inl p
                   | Inr args \<Rightarrow>
                       Inr (if terminal
                            then \<lparr>executable = term, arguments = [name], envOverrides = envVars\<rparr>
                            else \<lparr>executable = name, arguments = args, envOverrides = envVars\<rparr>))))"

text \<open>
  Two notions used to state what the scan finds. An executable token is what the loop's
  second branch accepts: no \<open>=\<close> in it and no leading \<open>-\<close>. The detected index is the
  position of the first such token, and \<open>0\<close> when there is none.
\<close>

definition exec_token :: "string \<Rightarrow> bool" where
  "exec_token item = (\<not> strings_Contains item ''='' \<and> \<not> strings_HasPrefix item ''-'')"

definition exec_token_index :: "string list \<Rightarrow> nat" where
  "exec_token_index elements =
     (if list_ex exec_token elements
      then length (takeWhile (\<lambda>item. \<not> exec_token item) elements) else 0)"

section \<open>More of package \<open>strings\<close> and \<open>strconv\<close>\<close>

text \<open>
  \<open>strings.TrimSpace\<close> removes leading and trailing white space "as defined by Unicode",
  decoding the string as UTF-8. The runes with \<open>unicode.IsSpace\<close> are U+0009 to U+000D,
  U+0020, U+0085, U+00A0, U+1680, U+2000 to U+200A, U+2028, U+2029, U+202F, U+205F and
  U+3000; these are their UTF-8 encodings. A byte sequence that is not one of them decodes
  to another rune or to \<open>RuneError\<close>, neither of which is a space.
\<close>

definition space_encodings :: "string list" where
  "space_encodings =
     [[CHR 0x09], [CHR 0x0A], [CHR 0x0B], [CHR 0x0C], [CHR 0x0D], [CHR 0x20],
      [CHR 0xC2, CHR 0x85], [CHR 0xC2, CHR 0xA0],
      [CHR 0xE1, CHR 0x9A, CHR 0x80],
      [CHR 0xE2, CHR 0x80, CHR 0x80], [CHR 0xE2, CHR 0x80, CHR 0x81],
      [CHR 0xE2, CHR 0x80, CHR 0x82], [CHR 0xE2, CHR 0x80, CHR 0x83],
      [CHR 0xE2, CHR 0x80, CHR 0x84], [CHR 0xE2, CHR 0x80, CHR 0x85],
      [CHR 0xE2, CHR 0x80, CHR 0x86], [CHR 0xE2, CHR 0x80, CHR 0x87],
      [CHR 0xE2, CHR 0x80, CHR 0x88], [CHR 0xE2, CHR 0x80, CHR 0x89],
      [CHR 0xE2, CHR 0x80, CHR 0x8A],
      [CHR 0xE2, CHR 0x80, CHR 0xA8], [CHR 0xE2, CHR 0x80, CHR 0xA9],
      [CHR 0xE2, CHR 0x80, CHR 0xAF], [CHR 0xE2, CHR 0x81, CHR 0x9F],
      [CHR 0xE3, CHR 0x80, CHR 0x80]]"

definition strings_HasSuffix :: "string \<Rightarrow> string \<Rightarrow> bool" where
  "strings_HasSuffix s p = (length p \<le> length s \<and> drop (length s - length p) s = p)"

function trim_left_space :: "string \<Rightarrow> string" where
  "trim_left_space s =
     (case find (strings_HasPrefix s) space_encodings of
        None \<Rightarrow> s
      | Some enc \<Rightarrow> trim_left_space (drop (length enc) s))"
  by pat_completeness auto
termination
proof (relation "measure length")
  show "wf (measure length)" by simp
next
  fix s enc
  assume f: "find (strings_HasPrefix s) space_encodings = Some enc"
  then have "enc \<in> set space_encodings" by (auto simp: find_Some_iff)
  then have "enc \<noteq> []" by (auto simp: space_encodings_def)
  moreover have "strings_HasPrefix s enc" using f by (auto simp: find_Some_iff)
  ultimately have "s \<noteq> []" by (auto simp: strings_HasPrefix_def)
  with \<open>enc \<noteq> []\<close> show "(drop (length enc) s, s) \<in> measure length" by simp
qed

function trim_right_space :: "string \<Rightarrow> string" where
  "trim_right_space s =
     (case find (strings_HasSuffix s) space_encodings of
        None \<Rightarrow> s
      | Some enc \<Rightarrow> trim_right_space (take (length s - length enc) s))"
  by pat_completeness auto
termination
proof (relation "measure length")
  show "wf (measure length)" by simp
next
  fix s enc
  assume f: "find (strings_HasSuffix s) space_encodings = Some enc"
  then have "enc \<in> set space_encodings" by (auto simp: find_Some_iff)
  then have "enc \<noteq> []" by (auto simp: space_encodings_def)
  moreover have "strings_HasSuffix s enc" using f by (auto simp: find_Some_iff)
  ultimately have "s \<noteq> []" by (auto simp: strings_HasSuffix_def)
  with \<open>enc \<noteq> []\<close> show "(take (length s - length enc) s, s) \<in> measure length" by simp
qed

declare trim_left_space.simps [simp del] trim_right_space.simps [simp del]

definition strings_TrimSpace :: "string \<Rightarrow> string" where
  "strings_TrimSpace s = trim_right_space (trim_left_space s)"

datatype error = ErrSyntax | ErrRange | PathError | LockError

text \<open>\<open>strconv.ParseBool\<close>: the value and the error; the value is \<open>false\<close> with an error.\<close>

definition strconv_ParseBool :: "string \<Rightarrow> bool \<times> error option" where
  "strconv_ParseBool str =
     (if str \<in> set [''1'', ''t'', ''T'', ''TRUE'', ''true'', ''True''] then (True, None)
      else if str \<in> set [''0'', ''f'', ''F'', ''FALSE'', ''false'', ''False''] then (False, None)
      else (False, Some ErrSyntax))"


section \<open>The entry parser\<close>

record desktopEntry =
  DesktopID :: string
  Name :: string
  NameLoc :: string
  Comment :: string
  CommentLoc :: string
  Icon :: string
  Exec :: string
  Category :: string
  Terminal :: bool
  NoDisplay :: bool

text \<open>The zero value of the struct, which a named result starts from.\<close>

definition zero_desktopEntry :: desktopEntry where
  "zero_desktopEntry =
     \<lparr>DesktopID = [], Name = [], NameLoc = [], Comment = [], CommentLoc = [], Icon = [],
      Exec = [], Category = [], Terminal = False, NoDisplay = False\<rparr>"

text \<open>
  \<open>parseKeypair\<close>. \<open>strings.IndexRune(s, '=')\<close> is the index of the first \<open>=\<close> byte.
  With \<open>0 < idx\<close> both \<open>s[:idx]\<close> and \<open>s[idx+1:]\<close> are in bounds (\<open>parseKeypair_in_bounds\<close>
  below), so they are \<^const>\<open>take\<close> and \<^const>\<open>drop\<close>.
\<close>

definition parseKeypair :: "string \<Rightarrow> string \<times> string" where
  "parseKeypair s =
     (let idx = strings_Index s ''='' in
      if 0 < idx
      then (strings_TrimSpace (take (nat idx) s), strings_TrimSpace (drop (nat (idx + 1)) s))
      else (s, []))"

text \<open>
  \<open>bufio.Scanner\<close> with \<open>bufio.ScanLines\<close> over the bytes the reader delivers: a token
  ends at a newline or at the end of the input, one trailing carriage return is dropped,
  and a final empty line is not a token. A line of \<open>MaxScanTokenSize\<close> bytes or more does
  not fit the buffer: \<open>Scan\<close> answers \<open>false\<close> there and the \<open>for\<close> loop ends.
\<close>

definition MaxScanTokenSize :: nat where
  "MaxScanTokenSize = 64 * 1024"

definition dropCR :: "string \<Rightarrow> string" where
  "dropCR data = (if data \<noteq> [] \<and> last data = CHR 0x0D then butlast data else data)"

function scanner_lines :: "string \<Rightarrow> string list" where
  "scanner_lines data =
     (if data = [] then []
      else (let l = takeWhile (\<lambda>c. c \<noteq> CHR 0x0A) data in
            if MaxScanTokenSize \<le> length l then []
            else dropCR l # scanner_lines (drop (length l + 1) data)))"
  by pat_completeness auto
termination
  by (relation "measure length") auto

declare scanner_lines.simps [simp del]

text \<open>\<open>strings.NewReplacer("\"", "", "'", "").Replace\<close>: both quote bytes are deleted.\<close>

definition cleanexec :: "string \<Rightarrow> string" where
  "cleanexec v = filter (\<lambda>c. c \<noteq> CHR 0x22 \<and> c \<noteq> CHR 0x27) v"

text \<open>
  \<open>fmt.Sprintf("Name[%s]", strings.Split(lang, "_")[0])\<close> with
  \<open>lang := strings.Split(os.Getenv("LANG"), ".")[0]\<close>. \<open>strings.Split\<close> never returns an
  empty slice (\<open>strings_Split_not_Nil\<close>), so index \<open>0\<close> is \<^const>\<open>hd\<close>.
\<close>

definition localized_key :: "string \<Rightarrow> string \<Rightarrow> string" where
  "localized_key key LANG =
     (let lang = hd (strings_Split LANG (CHR ''.''))
      in key @ ''['' @ hd (strings_Split lang (CHR ''_'')) @ '']'')"

text \<open>The \<open>switch name\<close> of the loop body; the cases are tried in the order written.\<close>

definition assign_key :: "string \<Rightarrow> string \<Rightarrow> string \<Rightarrow> string \<Rightarrow> desktopEntry \<Rightarrow> desktopEntry" where
  "assign_key localizedName localizedComment name v entry =
     (if name = ''Name'' then entry\<lparr>Name := v\<rparr>
      else if name = localizedName then entry\<lparr>NameLoc := v\<rparr>
      else if name = ''Comment'' then entry\<lparr>Comment := v\<rparr>
      else if name = localizedComment then entry\<lparr>CommentLoc := v\<rparr>
      else if name = ''Icon'' then entry\<lparr>Icon := v\<rparr>
      else if name = ''Categories'' then entry\<lparr>Category := v\<rparr>
      else if name = ''Terminal'' then entry\<lparr>Terminal := fst (strconv_ParseBool v)\<rparr>
      else if name = ''NoDisplay'' then entry\<lparr>NoDisplay := fst (strconv_ParseBool v)\<rparr>
      else if name = ''Exec'' then entry\<lparr>Exec := cleanexec v\<rparr>
      else entry)"

text \<open>The \<open>for scanner.Scan()\<close> loop over the lines, with its \<open>break\<close> and \<open>continue\<close>.\<close>

definition section_end :: "string \<Rightarrow> bool" where
  "section_end l = (strings_HasPrefix l ''['' \<and> l \<noteq> ''[Desktop Entry]'')"

fun scan_entry_lines :: "string \<Rightarrow> string \<Rightarrow> string list \<Rightarrow> desktopEntry \<Rightarrow> desktopEntry" where
  "scan_entry_lines localizedName localizedComment [] entry = entry"
| "scan_entry_lines localizedName localizedComment (l # ls) entry =
     (if section_end l then entry
      else (let (name, v) = parseKeypair l in
            if v = [] then scan_entry_lines localizedName localizedComment ls entry
            else scan_entry_lines localizedName localizedComment ls
                   (assign_key localizedName localizedComment name v entry)))"

text \<open>
  \<open>parseDesktopEntry\<close> on the lines the scanner yields. The named result \<open>err\<close> is never
  assigned, so the error returned is \<open>nil\<close>; \<open>scanner.Err()\<close> is not consulted.
\<close>

definition parseDesktopEntry_lines :: "string \<Rightarrow> string \<Rightarrow> string list \<Rightarrow> desktopEntry \<times> error option" where
  "parseDesktopEntry_lines LANG ident ls =
     (let entry = zero_desktopEntry\<lparr>DesktopID := ident\<rparr>;
          entry = scan_entry_lines (localized_key ''Name'' LANG) (localized_key ''Comment'' LANG)
                    ls entry;
          entry = (if NameLoc entry = [] then entry\<lparr>NameLoc := Name entry\<rparr> else entry);
          entry = (if CommentLoc entry = [] then entry\<lparr>CommentLoc := Comment entry\<rparr> else entry)
      in (entry, None))"

definition parseDesktopEntry :: "string \<Rightarrow> string \<Rightarrow> string \<Rightarrow> desktopEntry \<times> error option" where
  "parseDesktopEntry LANG ident input = parseDesktopEntry_lines LANG ident (scanner_lines input)"

text \<open>
  \<open>parseDesktopEntryFile\<close>; \<open>os_Open\<close> gives the error of \<open>os.Open\<close> or the bytes that
  reading the opened file delivers.
\<close>

definition parseDesktopEntryFile :: "('p \<Rightarrow> error + string) \<Rightarrow> string \<Rightarrow> string \<Rightarrow> 'p \<Rightarrow> desktopEntry \<times> error option" where
  "parseDesktopEntryFile os_Open LANG ident path =
     (case os_Open path of
        Inl err \<Rightarrow> (zero_desktopEntry, Some err)
      | Inr input \<Rightarrow> parseDesktopEntry LANG ident input)"


section \<open>The entry index\<close>

text \<open>
  What the scan reads from outside: the value of \<open>LANG\<close>, the directories \<open>getAppDirs\<close>
  returns (in priority order), \<open>ioutil.ReadDir\<close> and \<open>os.Open\<close>. A path built by
  \<open>listDesktopFiles\<close> is \<open>filepath.Join(dir, file.Name())\<close> and \<open>parseDesktopFiles\<close> takes
  its \<open>filepath.Base\<close>, which is the entry's name again; the model keeps a path as the
  pair of the directory and the name.
\<close>

type_synonym path = "string \<times> string"

record system =
  LANG :: string
  appDirs :: "string list"
  ReadDir :: "string \<Rightarrow> error + string list"
  Open :: "path \<Rightarrow> error + string"

definition filepath_Base :: "path \<Rightarrow> string" where
  "filepath_Base file = snd file"

text \<open>The test of \<open>listDesktopFiles\<close>: the last dot-separated part is \<open>desktop\<close>.\<close>

definition desktop_name :: "string \<Rightarrow> bool" where
  "desktop_name name = (last (strings_Split name (CHR ''.'')) = ''desktop'')"

fun listDesktopFiles_in :: "system \<Rightarrow> string list \<Rightarrow> path list" where
  "listDesktopFiles_in sys [] = []"
| "listDesktopFiles_in sys (dir # dirs) =
     (case ReadDir sys dir of
        Inl err \<Rightarrow> listDesktopFiles_in sys dirs
      | Inr names \<Rightarrow>
          map (\<lambda>name. (dir, name)) (filter desktop_name names) @ listDesktopFiles_in sys dirs)"

definition listDesktopFiles :: "system \<Rightarrow> path list" where
  "listDesktopFiles sys = listDesktopFiles_in sys (appDirs sys)"

text \<open>The variables of \<open>parseDesktopFiles\<close> and one turn of its loop.\<close>

record scan =
  desktopEntries :: "desktopEntry list"
  id2entry :: "string \<rightharpoonup> desktopEntry"
  skipped :: nat
  hidden :: nat

definition scan_start :: scan where
  "scan_start = \<lparr>desktopEntries = [], id2entry = Map.empty, skipped = 0, hidden = 0\<rparr>"

definition scan_file :: "system \<Rightarrow> scan \<Rightarrow> path \<Rightarrow> scan" where
  "scan_file sys st file =
     (let ident = filepath_Base file in
      if id2entry st ident \<noteq> None then st\<lparr>skipped := skipped st + 1\<rparr>
      else (case parseDesktopEntryFile (Open sys) (LANG sys) ident file of
              (entry, Some err) \<Rightarrow> st
            | (entry, None) \<Rightarrow>
                st\<lparr>hidden := (if NoDisplay entry then hidden st + 1 else hidden st),
                   id2entry := (id2entry st)(DesktopID entry \<mapsto> entry),
                   desktopEntries := desktopEntries st @ [entry]\<rparr>))"

definition scan_files :: "system \<Rightarrow> path list \<Rightarrow> scan" where
  "scan_files sys files = foldl (scan_file sys) scan_start files"

text \<open>
  The comparison that \<open>parseDesktopFiles\<close> hands to \<open>sort.Slice\<close>:
  \<open>desktopEntries[i].NameLoc < desktopEntries[j].NameLoc\<close>, Go's byte-wise order of
  strings, here on the two elements the indices stand for.
\<close>

definition less_NameLoc :: "desktopEntry \<Rightarrow> desktopEntry \<Rightarrow> bool" where
  "less_NameLoc a b = (NameLoc a < NameLoc b)"

text \<open>
  \<open>parseDesktopFiles\<close>. The body of \<open>sort.Slice\<close> belongs to the Go library and is not
  stable; it is the parameter \<open>sort_Slice\<close>, which gets the comparison above. The summary
  string is printed from the two numbers of \<open>summary\<close>.
\<close>

definition parseDesktopFiles ::
  "((desktopEntry \<Rightarrow> desktopEntry \<Rightarrow> bool) \<Rightarrow> desktopEntry list \<Rightarrow> desktopEntry list)
    \<Rightarrow> system \<Rightarrow> scan" where
  "parseDesktopFiles sort_Slice sys =
     (let st = scan_files sys (listDesktopFiles sys)
      in st\<lparr>desktopEntries := sort_Slice less_NameLoc (desktopEntries st)\<rparr>)"

definition summary :: "scan \<Rightarrow> int \<times> int" where
  "summary st = (int (length (desktopEntries st)) - int (hidden st), int (hidden st))"

text \<open>
  What package \<open>sort\<close> documents. The comparison \<open>lt\<close> must be a transitive
  ordering: never true of an element and itself, transitive, and with transitive
  incomparability. For such a comparison, whatever it is, the result is a
  rearrangement of the slice in which no element comes before one it is greater than.
\<close>

definition transitive_ordering :: "('a \<Rightarrow> 'a \<Rightarrow> bool) \<Rightarrow> bool" where
  "transitive_ordering lt =
     ((\<forall>a. \<not> lt a a)
      \<and> (\<forall>a b c. lt a b \<and> lt b c \<longrightarrow> lt a c)
      \<and> (\<forall>a b c. \<not> lt a b \<and> \<not> lt b c \<longrightarrow> \<not> lt a c))"

definition sort_Slice_contract ::
  "(('a \<Rightarrow> 'a \<Rightarrow> bool) \<Rightarrow> 'a list \<Rightarrow> 'a list) \<Rightarrow> bool" where
  "sort_Slice_contract sort_Slice =
     (\<forall>lt xs. transitive_ordering lt \<longrightarrow>
        mset (sort_Slice lt xs) = mset xs
        \<and> sorted_wrt (\<lambda>a b. \<not> lt b a) (sort_Slice lt xs))"

text \<open>
  The loop of \<open>setUpAppsFlowBox\<close>: the entries for which a button is added, in order.
  \<open>strings.ToLower\<close> is the parameter \<open>toLower\<close>.
\<close>

definition phrase_matches :: "(string \<Rightarrow> string) \<Rightarrow> string \<Rightarrow> desktopEntry \<Rightarrow> bool" where
  "phrase_matches toLower searchPhrase entry =
     (searchPhrase = [] \<or> \<not> NoDisplay entry \<and>
        (strings_Contains (toLower (NameLoc entry)) (toLower searchPhrase) \<or>
         strings_Contains (toLower (CommentLoc entry)) (toLower searchPhrase) \<or>
         strings_Contains (toLower (Comment entry)) (toLower searchPhrase) \<or>
         strings_Contains (toLower (Exec entry)) (toLower searchPhrase)))"

fun setUpAppsFlowBox :: "(string \<Rightarrow> string) \<Rightarrow> desktopEntry list \<Rightarrow> string \<Rightarrow> desktopEntry list" where
  "setUpAppsFlowBox toLower [] searchPhrase = []"
| "setUpAppsFlowBox toLower (entry # rest) searchPhrase =
     (if \<not> phrase_matches toLower searchPhrase entry
      then setUpAppsFlowBox toLower rest searchPhrase
      else if \<not> NoDisplay entry
      then entry # setUpAppsFlowBox toLower rest searchPhrase
      else setUpAppsFlowBox toLower rest searchPhrase)"

section \<open>The instance lock\<close>

text \<open>
  \<open>strconv.Atoi\<close> with its callees \<open>ParseInt(s, 10, 0)\<close> and \<open>ParseUint(s, 10, 0)\<close>, on
  a platform where \<open>int\<close> has 64 bits. \<open>ParseUint\<close> reads the bytes from the left and
  stops at the first that is not a decimal digit (a syntax error, value \<open>0\<close>) or that
  takes the number past \<open>2^64 - 1\<close> (a range error, value \<open>2^64 - 1\<close>).
\<close>

definition intSize :: nat where
  "intSize = 64"

definition digit :: "char \<Rightarrow> bool" where
  "digit c = (CHR ''0'' \<le> c \<and> c \<le> CHR ''9'')"

definition digit_value :: "char \<Rightarrow> nat" where
  "digit_value c = of_char c - of_char (CHR ''0'')"

fun ParseUint_loop :: "string \<Rightarrow> nat \<Rightarrow> nat \<times> error option" where
  "ParseUint_loop [] n = (n, None)"
| "ParseUint_loop (c # cs) n =
     (if \<not> digit c then (0, Some ErrSyntax)
      else if (2 ^ 64 - 1) div 10 + 1 \<le> n then (2 ^ 64 - 1, Some ErrRange)
      else (let n1 = n * 10 + digit_value c in
            if 2 ^ 64 - 1 < n1 then (2 ^ 64 - 1, Some ErrRange)
            else ParseUint_loop cs n1))"

definition strconv_ParseUint :: "string \<Rightarrow> nat \<times> error option" where
  "strconv_ParseUint s = (if s = [] then (0, Some ErrSyntax) else ParseUint_loop s 0)"

definition strconv_ParseInt :: "string \<Rightarrow> int \<times> error option" where
  "strconv_ParseInt s =
     (if s = [] then (0, Some ErrSyntax)
      else (let neg = (hd s = CHR ''-'');
                s' = (if hd s = CHR ''+'' \<or> hd s = CHR ''-'' then tl s else s);
                (un, err) = strconv_ParseUint s';
                cutoff = 2 ^ (intSize - 1)
            in if err \<noteq> None \<and> err \<noteq> Some ErrRange then (0, err)
               else if \<not> neg \<and> cutoff \<le> un then (int cutoff - 1, Some ErrRange)
               else if neg \<and> cutoff < un then (- int cutoff, Some ErrRange)
               else (if neg then - int un else int un, None)))"

text \<open>The loop of the fast path of \<open>Atoi\<close>, for strings too short to overflow.\<close>

fun Atoi_loop :: "string \<Rightarrow> int \<Rightarrow> int \<times> error option" where
  "Atoi_loop [] n = (n, None)"
| "Atoi_loop (ch # rest) n =
     (if \<not> digit ch then (0, Some ErrSyntax)
      else Atoi_loop rest (n * 10 + int (digit_value ch)))"

definition strconv_Atoi :: "string \<Rightarrow> int \<times> error option" where
  "strconv_Atoi s0 =
     (if 0 < length s0 \<and> length s0 < 19 then
        (let s = (if hd s0 = CHR ''-'' \<or> hd s0 = CHR ''+'' then tl s0 else s0) in
         if length s < 1 then (0, Some ErrSyntax)
         else (case Atoi_loop s 0 of
                 (n, Some err) \<Rightarrow> (0, Some err)
               | (n, None) \<Rightarrow> (if hd s0 = CHR ''-'' then - n else n, None)))
      else strconv_ParseInt s0)"

text \<open>\<open>getLockFilePid\<close>; \<open>contents\<close> is the result of \<open>ioutil.ReadFile\<close>.\<close>

definition getLockFilePid :: "error + string \<Rightarrow> int \<times> error option" where
  "getLockFilePid contents =
     (case contents of
        Inl err \<Rightarrow> (0, Some err)
      | Inr bytes \<Rightarrow> strconv_Atoi bytes)"

text \<open>
  The start of \<open>main\<close> from \<open>createLockFile\<close> to \<open>os.Exit(0)\<close>. \<open>locked\<close> is the result
  of \<open>createLockFile\<close>, \<open>contents\<close> what \<open>ioutil.ReadFile\<close> gives for the lock file, and
  \<open>kill\<close> the result of \<open>syscall.Kill\<close>, which \<open>main\<close> drops. A process that does not
  get the lock ends with the exit status and the list of the signals it has sent.
\<close>

datatype signal = SIGUSR1 | SIGTERM

datatype startup = Owner | Exited int "(int \<times> signal) list"

definition main_lock :: "error option \<Rightarrow> error + string \<Rightarrow> (int \<Rightarrow> signal \<Rightarrow> error option) \<Rightarrow> startup" where
  "main_lock locked contents kill =
     (case locked of
        None \<Rightarrow> Owner
      | Some err \<Rightarrow>
          (case getLockFilePid contents of
             (pid, None) \<Rightarrow> (let dropped = kill pid SIGUSR1 in Exited 0 [(pid, SIGUSR1)])
           | (pid, Some err') \<Rightarrow> Exited 0 []))"

section \<open>Sample systems\<close>

text \<open>
  Two small file systems on which the scan is run below. In the first, the copy of
  \<open>a.desktop\<close> in the user's directory cannot be opened (a dangling link, say) and the
  system-wide copy can. In the second, \<open>a.desktop\<close> exists and opens in both
  directories, \<open>c.desktop\<close> exists in both and opens only in the second, and
  \<open>h.desktop\<close> asks not to be displayed.
\<close>

definition unreadable_first_system :: system where
  "unreadable_first_system =
     \<lparr>LANG = ''C'',
      appDirs = [''/home/u/.local/share/applications'', ''/usr/share/applications''],
      ReadDir = (\<lambda>dir. if dir = ''/home/u/.local/share/applications''
                           \<or> dir = ''/usr/share/applications''
                        then Inr [''a.desktop''] else Inl PathError),
      Open = (\<lambda>file. if file = (''/usr/share/applications'', ''a.desktop'')
                      then Inr ''Name=Second'' else Inl PathError)\<rparr>"

definition sample_system :: system where
  "sample_system =
     \<lparr>LANG = ''en_US.UTF-8'',
      appDirs = [''/home/u/.local/share/applications'', ''/usr/share/applications''],
      ReadDir = (\<lambda>dir. if dir = ''/home/u/.local/share/applications''
                        then Inr [''a.desktop'', ''b.desktop'', ''c.desktop'', ''h.desktop'']
                        else if dir = ''/usr/share/applications''
                        then Inr [''a.desktop'', ''c.desktop'', ''notes.txt'']
                        else Inl PathError),
      Open = (\<lambda>file. if file = (''/home/u/.local/share/applications'', ''a.desktop'')
                      then Inr ''Name=Zeta''
                      else if file = (''/home/u/.local/share/applications'', ''b.desktop'')
                      then Inr ''Name=Beta''
                      else if file = (''/home/u/.local/share/applications'', ''h.desktop'')
                      then Inr ''Name=Hidden\<newline>NoDisplay=true''
                      else if file = (''/usr/share/applications'', ''a.desktop'')
                      then Inr ''Name=Shadowed''
                      else if file = (''/usr/share/applications'', ''c.desktop'')
                      then Inr ''Name=Gamma''
                      else Inl PathError)\<rparr>"

text \<open>
  A sorting routine with the interface of \<open>sort.Slice\<close>, to run the refresh on the
  sample: insertion sort by the comparison it is given.
\<close>

fun insert_by :: "('a \<Rightarrow> 'a \<Rightarrow> bool) \<Rightarrow> 'a \<Rightarrow> 'a list \<Rightarrow> 'a list" where
  "insert_by lt x [] = [x]"
| "insert_by lt x (y # ys) = (if lt x y then x # y # ys else y # insert_by lt x ys)"

definition insertion_sort :: "('a \<Rightarrow> 'a \<Rightarrow> bool) \<Rightarrow> 'a list \<Rightarrow> 'a list" where
  "insertion_sort lt xs = foldr (insert_by lt) xs []"

section \<open>Notions for the statements about the scan\<close>

text \<open>
  \<open>opened_before sys pre candidate\<close>: one of the files \<open>pre\<close>, scanned before
  \<open>candidate\<close>, has the name of \<open>candidate\<close> and could be opened. \<open>entry_of\<close> is the
  descriptor that \<open>parseDesktopEntryFile\<close> reads from a file under its own name.
\<close>

definition opened_before :: "system \<Rightarrow> path list \<Rightarrow> path \<Rightarrow> bool" where
  "opened_before sys pre candidate =
     list_ex (\<lambda>g. filepath_Base g = filepath_Base candidate \<and> \<not> isl (Open sys g)) pre"

definition entry_of :: "system \<Rightarrow> path \<Rightarrow> desktopEntry" where
  "entry_of sys candidate =
     fst (parseDesktopEntryFile (Open sys) (LANG sys) (filepath_Base candidate) candidate)"

text \<open>What holds of the loop variables after any number of turns.\<close>

definition scan_inv :: "scan \<Rightarrow> bool" where
  "scan_inv st =
     (distinct (map DesktopID (desktopEntries st))
      \<and> dom (id2entry st) = DesktopID ` set (desktopEntries st)
      \<and> (\<forall>entry \<in> set (desktopEntries st). id2entry st (DesktopID entry) = Some entry))"

section \<open>Properties of the command interpreter\<close>

lemma strings_Split_not_Nil: "strings_Split s sep \<noteq> []"
  by (induction s) (auto split: list.splits)

lemma strings_Index_byte:
  "strings_Index s [c] = (if c \<in> set s then int (length (takeWhile (\<lambda>x. x \<noteq> c) s)) else - 1)"
  by (induction s) (auto simp: strings_HasPrefix_def Let_def)

lemma strings_Contains_byte: "strings_Contains s [c] = (c \<in> set s)"
  by (simp add: strings_Contains_def strings_Index_byte)

lemma strings_Split_tokens: "t \<in> set (strings_Split s sep) \<Longrightarrow> set t \<subseteq> set s"
proof (induction s arbitrary: t)
  case Nil
  then show ?case by simp
next
  case (Cons c cs)
  show ?case
  proof (cases "c = sep")
    case True
    with Cons show ?thesis by auto
  next
    case False
    obtain w ws where w: "strings_Split cs sep = w # ws"
      using strings_Split_not_Nil [of cs sep] by (cases "strings_Split cs sep") auto
    with False Cons.prems have "t = c # w \<or> t \<in> set ws" by auto
    then show ?thesis
    proof
      assume "t = c # w"
      moreover have "set w \<subseteq> set cs" using Cons.IH [of w] w by simp
      ultimately show ?thesis by auto
    next
      assume "t \<in> set ws"
      then have "set t \<subseteq> set cs" using Cons.IH [of t] w by simp
      then show ?thesis by auto
    qed
  qed
qed

lemma trim_placeholder_none:
  "CHR ''%'' \<notin> set command \<Longrightarrow> trim_placeholder command = Inr command"
  by (simp add: trim_placeholder_def strings_Contains_byte)

lemma trim_placeholder_first:
  "CHR ''%'' \<notin> set pre \<Longrightarrow>
   trim_placeholder (pre @ CHR ''%'' # rest) =
     (if pre = [] then Inl (SliceBoundsOutOfRange (- 1)) else Inr (butlast pre))"
proof -
  assume pre: "CHR ''%'' \<notin> set pre"
  then have tw: "takeWhile (\<lambda>x. x \<noteq> CHR ''%'') (pre @ CHR ''%'' # rest) = pre"
    by (induction pre) auto
  show ?thesis
    by (cases "pre = []")
      (simp_all add: trim_placeholder_def strings_Contains_byte strings_Index_byte tw slice_to_def
        butlast_conv_take nat_diff_distrib')
qed

lemma scan_elements_result:
  "0 \<le> idx \<Longrightarrow>
   scan_elements xs idx (ev, ci) =
     (ev @ filter (\<lambda>t. strings_Contains t ''='') xs,
      if ci \<noteq> - 1 then ci
      else if list_ex exec_token xs
        then idx + int (length (takeWhile (\<lambda>t. \<not> exec_token t) xs))
        else - 1)"
proof (induction xs arbitrary: idx ev ci)
  case Nil
  then show ?case by simp
next
  case (Cons item rest)
  have step: "0 \<le> idx + 1" using Cons.prems by simp
  show ?case
    using Cons.prems by (simp add: Cons.IH [OF step] exec_token_def)
qed

lemma find_command_result:
  "find_command command elements =
     (if CHR ''='' \<in> set command
      then (filter (\<lambda>t. strings_Contains t ''='') elements, int (exec_token_index elements))
      else ([], 0))"
proof -
  have c: "(0 < strings_Count command (CHR ''='')) = (CHR ''='' \<in> set command)"
    by (auto simp: strings_Count_def filter_empty_conv)
  show ?thesis
    by (simp add: find_command_def c scan_elements_result exec_token_index_def Let_def)
qed

lemma exec_token_index_less: "elements \<noteq> [] \<Longrightarrow> exec_token_index elements < length elements"
proof (cases "list_ex exec_token elements")
  case True
  assume "elements \<noteq> []"
  from True have "\<exists>x\<in>set elements. \<not> \<not> exec_token x" by (simp add: list_ex_iff)
  then have "takeWhile (\<lambda>item. \<not> exec_token item) elements \<noteq> elements"
    by (simp add: takeWhile_eq_all_conv)
  then have "length (takeWhile (\<lambda>item. \<not> exec_token item) elements) \<noteq> length elements"
    by (metis takeWhile_eq_take take_all_iff le_refl)
  then have "length (takeWhile (\<lambda>item. \<not> exec_token item) elements) < length elements"
    using length_takeWhile_le [of "\<lambda>item. \<not> exec_token item" elements] by simp
  with True show ?thesis by (simp add: exec_token_index_def)
next
  case False
  assume "elements \<noteq> []"
  with False show ?thesis by (simp add: exec_token_index_def)
qed

lemma launch_after_trim:
  assumes "trim_placeholder command = Inr command'"
  shows "launch term command terminal =
     (let elements = strings_Split command' (CHR '' '');
          (envVars, cmdIdx) = find_command command' elements
      in Inr (if terminal
              then \<lparr>executable = term, arguments = [elements ! nat cmdIdx], envOverrides = envVars\<rparr>
              else \<lparr>executable = elements ! nat cmdIdx, arguments = drop (Suc (nat cmdIdx)) elements,
                     envOverrides = envVars\<rparr>))"
proof -
  let ?els = "strings_Split command' (CHR '' '')"
  have ne: "?els \<noteq> []" by (rule strings_Split_not_Nil)
  have lt: "exec_token_index ?els < length ?els" using ne by (rule exec_token_index_less)
  have pos: "0 < length ?els" using ne by simp
  show ?thesis
    using lt pos
    by (simp add: launch_def assms find_command_result index_at_def slice_from_def Let_def
        nat_add_distrib Suc_nat_eq_nat_zadd1)
qed


lemma exec_token_index_first:
  assumes "list_ex exec_token elements"
  shows "exec_token (elements ! exec_token_index elements)"
    and "j < exec_token_index elements \<Longrightarrow> \<not> exec_token (elements ! j)"
proof -
  let ?n = "length (takeWhile (\<lambda>item. \<not> exec_token item) elements)"
  have idx: "exec_token_index elements = ?n" using assms by (simp add: exec_token_index_def)
  have "elements \<noteq> []" using assms by auto
  then have "?n < length elements" using exec_token_index_less [of elements] idx by simp
  then have "\<not> \<not> exec_token (elements ! ?n)" by (rule nth_length_takeWhile)
  then show "exec_token (elements ! exec_token_index elements)" by (simp add: idx)
  show "\<not> exec_token (elements ! j)" if "j < exec_token_index elements"
  proof -
    from that have j: "j < ?n" by (simp add: idx)
    then have "takeWhile (\<lambda>item. \<not> exec_token item) elements ! j = elements ! j"
      by (rule takeWhile_nth)
    moreover have "takeWhile (\<lambda>item. \<not> exec_token item) elements ! j
        \<in> set (takeWhile (\<lambda>item. \<not> exec_token item) elements)"
      using j by (rule nth_mem)
    ultimately show ?thesis by (auto dest: set_takeWhileD)
  qed
qed

text \<open>
  C1, as stated, fails. The claim says that the argument list is the split from index
  \<open>1\<close> on, whatever the executable's index. For \<open>FOO=bar cmd arg1\<close> the split is
  \<open>[FOO=bar, cmd, arg1]\<close>, the executable is found at index \<open>1\<close> and the arguments given
  to \<open>exec.Command\<close> are \<open>elements[2:] = [arg1]\<close>, not \<open>[cmd, arg1]\<close>. For
  \<open>A=1 B=2 cmd x\<close> neither the arguments \<open>[x]\<close> nor the whole argument vector
  \<open>cmd # [x]\<close> is the split from index \<open>1\<close> on.
\<close>

theorem launch_first_token_slicing_counterexample:
  "launch ''foot'' ''FOO=bar cmd arg1'' False =
     Inr \<lparr>executable = ''cmd'', arguments = [''arg1''], envOverrides = [''FOO=bar'']\<rparr>
   \<and> [''arg1''] \<noteq> drop 1 (strings_Split ''FOO=bar cmd arg1'' (CHR '' ''))
   \<and> launch ''foot'' ''A=1 B=2 cmd x'' False =
     Inr \<lparr>executable = ''cmd'', arguments = [''x''], envOverrides = [''A=1'', ''B=2'']\<rparr>
   \<and> [''x''] \<noteq> drop 1 (strings_Split ''A=1 B=2 cmd x'' (CHR '' ''))
   \<and> ''cmd'' # [''x''] \<noteq> drop 1 (strings_Split ''A=1 B=2 cmd x'' (CHR '' ''))"
  by code_simp

text \<open>
  C1, amended: for every command whose part kept by the trimming contains \<open>=\<close>, the
  executable is the token at the detected index \<open>i\<close> (the first token with no \<open>=\<close> and no
  leading \<open>-\<close>, index \<open>0\<close> when there is none), the arguments are the tokens after index
  \<open>i\<close>, and the environment overrides are the tokens that contain \<open>=\<close>.
\<close>

theorem launch_arguments_follow_executable:
  assumes "trim_placeholder command = Inr command'"
    and "strings_Contains command' ''=''"
    and "elements = strings_Split command' (CHR '' '')"
    and "i = exec_token_index elements"
  shows "launch term command False =
           Inr \<lparr>executable = elements ! i, arguments = drop (Suc i) elements,
                envOverrides = filter (\<lambda>item. strings_Contains item ''='') elements\<rparr>
         \<and> i < length elements
         \<and> (if list_ex exec_token elements
            then exec_token (elements ! i) \<and> (\<forall>j<i. \<not> exec_token (elements ! j))
            else i = 0)"
proof -
  have eq: "CHR ''='' \<in> set command'" using assms(2) by (simp add: strings_Contains_byte)
  have ne: "elements \<noteq> []" using assms(3) by (simp add: strings_Split_not_Nil)
  have "launch term command False =
           Inr \<lparr>executable = elements ! i, arguments = drop (Suc i) elements,
                envOverrides = filter (\<lambda>item. strings_Contains item ''='') elements\<rparr>"
    by (simp add: launch_after_trim [OF assms(1)] find_command_result eq assms(3,4) Let_def)
  moreover have "i < length elements"
    using exec_token_index_less [OF ne] assms(4) by simp
  moreover have "exec_token (elements ! i) \<and> (\<forall>j<i. \<not> exec_token (elements ! j))"
    if "list_ex exec_token elements"
    using exec_token_index_first [OF that] assms(4) by simp
  moreover have "i = 0" if "\<not> list_ex exec_token elements"
    using that assms(4) by (simp add: exec_token_index_def)
  ultimately show ?thesis by simp
qed

text \<open>The amended C1 at \<open>FOO=bar cmd arg1\<close>.\<close>

theorem launch_arguments_follow_executable_witness:
  "trim_placeholder ''FOO=bar cmd arg1'' = Inr ''FOO=bar cmd arg1''
   \<and> strings_Contains ''FOO=bar cmd arg1'' ''=''
   \<and> exec_token_index (strings_Split ''FOO=bar cmd arg1'' (CHR '' '')) = 1
   \<and> launch ''foot'' ''FOO=bar cmd arg1'' False =
       Inr \<lparr>executable = ''cmd'', arguments = [''arg1''], envOverrides = [''FOO=bar'']\<rparr>"
proof -
  have h1: "trim_placeholder ''FOO=bar cmd arg1'' = Inr ''FOO=bar cmd arg1''" by code_simp
  have h2: "strings_Contains ''FOO=bar cmd arg1'' ''=''" by code_simp
  have h3: "[''FOO=bar'', ''cmd'', ''arg1''] = strings_Split ''FOO=bar cmd arg1'' (CHR '' '')"
    by code_simp
  have h4: "1 = exec_token_index [''FOO=bar'', ''cmd'', ''arg1'']" by code_simp
  have f: "filter (\<lambda>item. strings_Contains item ''='') [''FOO=bar'', ''cmd'', ''arg1''] = [''FOO=bar'']"
    by code_simp
  show ?thesis
    using launch_arguments_follow_executable [OF h1 h2 h3 h4, of "''foot''"]
      h1 h2 h3 [symmetric] h4 [symmetric] f
    by simp
qed

text \<open>
  C2: the claim asks that a \<open>%\<close> at position \<open>0\<close> never gives a malformed slice index.
  In \<open>launch\<close> the index is \<open>cutAt-1 = -1\<close> there, and \<open>command[:-1]\<close> panics: the only
  guard is \<open>cutAt != -1\<close>, which the enclosing \<open>strings.Contains\<close> test already implies.
  The theorem evaluates \<open>launch\<close> on every command that starts with \<open>%\<close>.
\<close>

theorem launch_placeholder_first_panics:
  "launch term (CHR ''%'' # rest) terminal = Inl (SliceBoundsOutOfRange (- 1))"
  using trim_placeholder_first [of "[]" rest] by (simp add: launch_def)

lemma launch_placeholder_after_space:
  assumes "CHR ''%'' \<notin> set pre"
  shows "launch term (pre @ '' %'' @ rest) terminal = launch term pre terminal"
proof -
  have "CHR ''%'' \<notin> set (pre @ '' '')" using assms by simp
  then have "trim_placeholder ((pre @ '' '') @ CHR ''%'' # rest) = Inr (butlast (pre @ '' ''))"
    by (simp add: trim_placeholder_first del: append_assoc)
  then have t: "trim_placeholder (pre @ '' %'' @ rest) = Inr pre" by simp
  have t': "trim_placeholder pre = Inr pre" using assms by (rule trim_placeholder_none)
  show ?thesis by (simp only: launch_after_trim [OF t] launch_after_trim [OF t'])
qed

text \<open>
  C6: the claim is that \<open>launch\<close> cuts the command at its first \<open>%\<close>, dropping the
  placeholder and what follows it, as the comment "trim \<open>%\<close> and everything afterwards"
  says. The code cuts at \<open>cutAt-1\<close>, one byte earlier. That byte is the separating space
  in \<open>cmd %U extra\<close>, which starts \<open>cmd\<close> without arguments as the claim says (and so
  for every \<open>%\<close> after a space, \<open>launch_placeholder_after_space\<close>). It is not a space
  in \<open>app --url=%u\<close>, where cutting at the \<open>%\<close> leaves \<open>app --url=\<close> and the code
  starts \<open>app\<close> with the argument \<open>--url\<close>, nor in \<open>cmd%U\<close>, where the code starts
  \<open>cm\<close>.
\<close>

theorem launch_placeholder_cut_drops_previous_byte:
  "take (nat (strings_Index ''app --url=%u'' ''%'')) ''app --url=%u'' = ''app --url=''
   \<and> trim_placeholder ''app --url=%u'' = Inr ''app --url''
   \<and> launch ''foot'' ''app --url=%u'' False =
       Inr \<lparr>executable = ''app'', arguments = [''--url''], envOverrides = []\<rparr>
   \<and> take (nat (strings_Index ''cmd%U'' ''%'')) ''cmd%U'' = ''cmd''
   \<and> trim_placeholder ''cmd%U'' = Inr ''cm''
   \<and> launch ''foot'' ''cmd%U'' False =
       Inr \<lparr>executable = ''cm'', arguments = [], envOverrides = []\<rparr>
   \<and> launch ''foot'' ''cmd %U extra'' False =
       Inr \<lparr>executable = ''cmd'', arguments = [], envOverrides = []\<rparr>"
  by code_simp

text \<open>
  C7: with \<open>terminal = true\<close> the command started is the configured terminal emulator with
  one argument, the executable token of the command; the environment overrides are those
  of the plain launch. (A command on which the plain launch panics panics here too.)
\<close>

theorem launch_terminal_wraps_executable:
  "launch term command True =
     (case launch term command False of
        Inl p \<Rightarrow> Inl p
      | Inr spec \<Rightarrow>
          Inr \<lparr>executable = term, arguments = [executable spec],
               envOverrides = envOverrides spec\<rparr>)"
proof (cases "trim_placeholder command")
  case (Inl p)
  then show ?thesis by (simp add: launch_def)
next
  case (Inr command')
  show ?thesis
    by (simp add: launch_after_trim [OF Inr] Let_def split: prod.splits)
qed

text \<open>C7 at \<open>vim file.txt\<close> with terminal \<open>foot\<close>.\<close>

theorem launch_terminal_wraps_executable_witness:
  "launch ''foot'' ''vim file.txt'' False =
     Inr \<lparr>executable = ''vim'', arguments = [''file.txt''], envOverrides = []\<rparr>
   \<and> launch ''foot'' ''vim file.txt'' True =
     Inr \<lparr>executable = ''foot'', arguments = [''vim''], envOverrides = []\<rparr>"
proof -
  have r: "launch ''foot'' ''vim file.txt'' False =
     Inr \<lparr>executable = ''vim'', arguments = [''file.txt''], envOverrides = []\<rparr>"
    by code_simp
  show ?thesis
    using launch_terminal_wraps_executable [of "''foot''" "''vim file.txt''"] r by simp
qed

text \<open>
  C10: a token with \<open>=\<close> at an index \<open>j\<close> after the detected executable index \<open>i\<close> is
  collected as an environment override and stays in the token list, so it is also the
  argument at position \<open>j - (i+1)\<close> of the started command.
\<close>

theorem launch_assignment_after_executable_is_argument:
  assumes "trim_placeholder command = Inr command'"
    and "elements = strings_Split command' (CHR '' '')"
    and "i = exec_token_index elements"
    and "i < j" and "j < length elements"
    and "strings_Contains (elements ! j) ''=''"
  shows "launch term command False =
           Inr \<lparr>executable = elements ! i, arguments = drop (Suc i) elements,
                envOverrides = filter (\<lambda>item. strings_Contains item ''='') elements\<rparr>
         \<and> drop (Suc i) elements ! (j - Suc i) = elements ! j
         \<and> elements ! j \<in> set (drop (Suc i) elements)
         \<and> elements ! j \<in> set (filter (\<lambda>item. strings_Contains item ''='') elements)"
proof -
  have mem: "elements ! j \<in> set elements" using assms(5) by simp
  then have "set (elements ! j) \<subseteq> set command'"
    using strings_Split_tokens [of "elements ! j" command' "CHR '' ''"] assms(2) by simp
  moreover have "CHR ''='' \<in> set (elements ! j)"
    using assms(6) by (simp add: strings_Contains_byte)
  ultimately have eq: "CHR ''='' \<in> set command'" by auto
  have l: "launch term command False =
           Inr \<lparr>executable = elements ! i, arguments = drop (Suc i) elements,
                envOverrides = filter (\<lambda>item. strings_Contains item ''='') elements\<rparr>"
    by (simp add: launch_after_trim [OF assms(1)] find_command_result eq assms(2,3) Let_def)
  have n: "drop (Suc i) elements ! (j - Suc i) = elements ! j"
    using assms(4,5) by simp
  have "j - Suc i < length (drop (Suc i) elements)" using assms(4,5) by simp
  then have "drop (Suc i) elements ! (j - Suc i) \<in> set (drop (Suc i) elements)"
    by (rule nth_mem)
  with n have a: "elements ! j \<in> set (drop (Suc i) elements)" by simp
  have e: "elements ! j \<in> set (filter (\<lambda>item. strings_Contains item ''='') elements)"
    using mem assms(6) by simp
  from l n a e show ?thesis by simp
qed

text \<open>C10 at \<open>cmd FOO=bar arg\<close>.\<close>

theorem launch_assignment_after_executable_is_argument_witness:
  "trim_placeholder ''cmd FOO=bar arg'' = Inr ''cmd FOO=bar arg''
   \<and> strings_Split ''cmd FOO=bar arg'' (CHR '' '') = [''cmd'', ''FOO=bar'', ''arg'']
   \<and> exec_token_index [''cmd'', ''FOO=bar'', ''arg''] = 0
   \<and> strings_Contains ([''cmd'', ''FOO=bar'', ''arg''] ! 1) ''=''
   \<and> launch ''foot'' ''cmd FOO=bar arg'' False =
       Inr \<lparr>executable = ''cmd'', arguments = [''FOO=bar'', ''arg''],
            envOverrides = [''FOO=bar'']\<rparr>"
proof -
  have h1: "trim_placeholder ''cmd FOO=bar arg'' = Inr ''cmd FOO=bar arg''" by code_simp
  have h2: "[''cmd'', ''FOO=bar'', ''arg''] = strings_Split ''cmd FOO=bar arg'' (CHR '' '')"
    by code_simp
  have h3: "0 = exec_token_index [''cmd'', ''FOO=bar'', ''arg'']" by code_simp
  have h4: "(0::nat) < 1" by simp
  have h5: "1 < length [''cmd'', ''FOO=bar'', ''arg'']" by simp
  have h6: "strings_Contains ([''cmd'', ''FOO=bar'', ''arg''] ! 1) ''=''" by code_simp
  have f: "filter (\<lambda>item. strings_Contains item ''='') [''cmd'', ''FOO=bar'', ''arg''] = [''FOO=bar'']"
    by code_simp
  show ?thesis
    using launch_assignment_after_executable_is_argument [OF h1 h2 h3 h4 h5 h6, of "''foot''"]
      h1 h2 [symmetric] h3 [symmetric] h6 f
    by simp
qed

section \<open>Properties of the entry parser\<close>


lemma strings_Index_byte_bound: "strings_Index s [c] < int (length s) \<or> s = []"
proof (cases "c \<in> set s")
  case True
  then have "takeWhile (\<lambda>x. x \<noteq> c) s \<noteq> s" by (auto simp: takeWhile_eq_all_conv)
  then have "length (takeWhile (\<lambda>x. x \<noteq> c) s) \<noteq> length s"
    by (metis takeWhile_eq_take take_all_iff le_refl)
  then have "length (takeWhile (\<lambda>x. x \<noteq> c) s) < length s"
    using length_takeWhile_le [of "\<lambda>x. x \<noteq> c" s] by simp
  with True show ?thesis by (simp add: strings_Index_byte)
next
  case False
  then show ?thesis by (cases s) (simp_all add: strings_Index_byte)
qed

lemma parseKeypair_in_bounds:
  "0 < strings_Index s ''='' \<Longrightarrow> nat (strings_Index s ''='' + 1) \<le> length s"
  using strings_Index_byte_bound [of s "CHR ''=''"] by auto

lemma parseKeypair_no_equals:
  "\<not> strings_Contains l ''='' \<Longrightarrow> parseKeypair l = (l, [])"
  by (simp add: parseKeypair_def strings_Contains_def)

lemma scan_entry_lines_stop:
  "section_end l \<Longrightarrow>
   scan_entry_lines ln lc (pre @ l # post) entry = scan_entry_lines ln lc pre entry"
  by (induction pre arbitrary: entry) (auto split: prod.splits)

lemma scan_entry_lines_append:
  "\<not> list_ex section_end ls \<Longrightarrow>
   scan_entry_lines ln lc (ls @ ls') entry = scan_entry_lines ln lc ls' (scan_entry_lines ln lc ls entry)"
  by (induction ls arbitrary: entry) (auto split: prod.splits)

lemma localized_key_neq:
  "''Name'' \<noteq> localized_key ''Name'' L" "''Name'' \<noteq> localized_key ''Comment'' L"
  "''Comment'' \<noteq> localized_key ''Name'' L" "''Comment'' \<noteq> localized_key ''Comment'' L"
  "''Exec'' \<noteq> localized_key ''Name'' L" "''Exec'' \<noteq> localized_key ''Comment'' L"
  "''Terminal'' \<noteq> localized_key ''Name'' L" "''Terminal'' \<noteq> localized_key ''Comment'' L"
  "''NoDisplay'' \<noteq> localized_key ''Name'' L" "''NoDisplay'' \<noteq> localized_key ''Comment'' L"
  by (simp_all add: localized_key_def Let_def)

lemma assign_key_Exec:
  "Exec (assign_key (localized_key ''Name'' L) (localized_key ''Comment'' L) ''Exec'' v entry)
     = cleanexec v"
  using localized_key_neq [of L] by (simp add: assign_key_def)

lemma assign_key_keeps_clean:
  assumes "CHR 0x22 \<notin> set (Exec entry) \<and> CHR 0x27 \<notin> set (Exec entry)"
  shows "CHR 0x22 \<notin> set (Exec (assign_key ln lc name v entry))
       \<and> CHR 0x27 \<notin> set (Exec (assign_key ln lc name v entry))"
  using assms by (simp add: assign_key_def cleanexec_def)

lemma scan_entry_lines_keeps_clean:
  assumes "CHR 0x22 \<notin> set (Exec entry) \<and> CHR 0x27 \<notin> set (Exec entry)"
  shows "CHR 0x22 \<notin> set (Exec (scan_entry_lines ln lc ls entry))
       \<and> CHR 0x27 \<notin> set (Exec (scan_entry_lines ln lc ls entry))"
  using assms
proof (induction ls arbitrary: entry)
  case Nil
  then show ?case by simp
next
  case (Cons l ls)
  obtain name v where kv: "parseKeypair l = (name, v)" by (cases "parseKeypair l")
  show ?case
    using Cons.prems Cons.IH [of entry]
      Cons.IH [OF assign_key_keeps_clean [OF Cons.prems, of ln lc name v]]
    by (simp add: kv)
qed

lemma Exec_parseDesktopEntry_lines:
  "Exec (fst (parseDesktopEntry_lines L ident ls)) =
   Exec (scan_entry_lines (localized_key ''Name'' L) (localized_key ''Comment'' L) ls
          (zero_desktopEntry\<lparr>DesktopID := ident\<rparr>))"
  by (simp add: parseDesktopEntry_lines_def Let_def)

lemma parseDesktopEntry_example_lines:
  "scanner_lines (''Name=Foo'' @ [CHR 0x0A] @ ''Exec='' @ [CHR 0x22] @ ''cmd'' @ [CHR 0x22]
      @ '' --flag'' @ [CHR 0x0A])
   = [''Name=Foo'', ''Exec='' @ [CHR 0x22] @ ''cmd'' @ [CHR 0x22] @ '' --flag'']"
  by (simp add: scanner_lines.simps MaxScanTokenSize_def dropCR_def)

lemma parseDesktopEntry_example:
  "parseDesktopEntry L ident
     (''Name=Foo'' @ [CHR 0x0A] @ ''Exec='' @ [CHR 0x22] @ ''cmd'' @ [CHR 0x22]
      @ '' --flag'' @ [CHR 0x0A])
   = (\<lparr>DesktopID = ident, Name = ''Foo'', NameLoc = ''Foo'', Comment = [], CommentLoc = [],
       Icon = [], Exec = ''cmd --flag'', Category = [], Terminal = False, NoDisplay = False\<rparr>,
      None)"
proof -
  have k1: "parseKeypair ''Name=Foo'' = (''Name'', ''Foo'')" by code_simp
  have k2: "parseKeypair (''Exec='' @ [CHR 0x22] @ ''cmd'' @ [CHR 0x22] @ '' --flag'')
      = (''Exec'', [CHR 0x22] @ ''cmd'' @ [CHR 0x22] @ '' --flag'')" by code_simp
  have s1: "\<not> section_end ''Name=Foo''" by code_simp
  have s2: "\<not> section_end (''Exec='' @ [CHR 0x22] @ ''cmd'' @ [CHR 0x22] @ '' --flag'')"
    by code_simp
  show ?thesis
    unfolding parseDesktopEntry_def parseDesktopEntry_example_lines
    using localized_key_neq [of L]
    by (simp add: parseDesktopEntry_lines_def k1 k2 [simplified] s1 s2 [simplified]
        assign_key_def cleanexec_def zero_desktopEntry_def Let_def)
qed

text \<open>
  C8: a line that starts with \<open>[\<close> and is not \<open>[Desktop Entry]\<close> ends the scan: the
  descriptor is the one the lines before it give, whatever follows. The \<open>Exec\<close> field set
  by an \<open>Exec\<close> line is its value without the bytes \<open>"\<close> and \<open>'\<close>, and no descriptor has
  either byte in \<open>Exec\<close>. The stream \<open>Name=Foo\<close>, \<open>Exec="cmd" --flag\<close> gives the name
  \<open>Foo\<close> and the command \<open>cmd --flag\<close>.
\<close>

theorem parseDesktopEntry_primary_section_clean_exec:
  "(strings_HasPrefix l ''['' \<and> l \<noteq> ''[Desktop Entry]'' \<and> scanner_lines input = pre @ l # post
      \<longrightarrow> parseDesktopEntry L ident input = parseDesktopEntry_lines L ident pre)
   \<and> (\<not> list_ex section_end ls \<and> \<not> section_end el \<and> parseKeypair el = (''Exec'', v) \<and> v \<noteq> []
        \<and> scanner_lines inputB = ls @ [el]
      \<longrightarrow> Exec (fst (parseDesktopEntry L ident inputB))
            = filter (\<lambda>c. c \<noteq> CHR 0x22 \<and> c \<noteq> CHR 0x27) v)
   \<and> CHR 0x22 \<notin> set (Exec (fst (parseDesktopEntry L ident inputC)))
   \<and> CHR 0x27 \<notin> set (Exec (fst (parseDesktopEntry L ident inputC)))
   \<and> Name (fst (parseDesktopEntry L ident
        (''Name=Foo'' @ [CHR 0x0A] @ ''Exec='' @ [CHR 0x22] @ ''cmd'' @ [CHR 0x22]
         @ '' --flag'' @ [CHR 0x0A]))) = ''Foo''
   \<and> Exec (fst (parseDesktopEntry L ident
        (''Name=Foo'' @ [CHR 0x0A] @ ''Exec='' @ [CHR 0x22] @ ''cmd'' @ [CHR 0x22]
         @ '' --flag'' @ [CHR 0x0A]))) = ''cmd --flag''"
proof -
  let ?ln = "localized_key ''Name'' L" and ?lc = "localized_key ''Comment'' L"
  let ?e0 = "zero_desktopEntry\<lparr>DesktopID := ident\<rparr>"
  have a: "parseDesktopEntry L ident input = parseDesktopEntry_lines L ident pre"
    if "strings_HasPrefix l ''[''" "l \<noteq> ''[Desktop Entry]''" "scanner_lines input = pre @ l # post"
  proof -
    have "section_end l" using that(1,2) by (simp add: section_end_def)
    then show ?thesis
      by (simp add: parseDesktopEntry_def parseDesktopEntry_lines_def that(3) scan_entry_lines_stop)
  qed
  have b: "Exec (fst (parseDesktopEntry L ident inputB))
            = filter (\<lambda>c. c \<noteq> CHR 0x22 \<and> c \<noteq> CHR 0x27) v"
    if "\<not> list_ex section_end ls" "\<not> section_end el" "parseKeypair el = (''Exec'', v)" "v \<noteq> []"
      "scanner_lines inputB = ls @ [el]"
  proof -
    have "scan_entry_lines ?ln ?lc (ls @ [el]) ?e0
        = assign_key ?ln ?lc ''Exec'' v (scan_entry_lines ?ln ?lc ls ?e0)"
      using that(2,3,4) by (simp add: scan_entry_lines_append [OF that(1)])
    then show ?thesis
      by (simp add: parseDesktopEntry_def Exec_parseDesktopEntry_lines that(5) assign_key_Exec
          cleanexec_def)
  qed
  have "CHR 0x22 \<notin> set (Exec ?e0) \<and> CHR 0x27 \<notin> set (Exec ?e0)"
    by (simp add: zero_desktopEntry_def)
  then have c: "CHR 0x22 \<notin> set (Exec (fst (parseDesktopEntry L ident inputC)))
      \<and> CHR 0x27 \<notin> set (Exec (fst (parseDesktopEntry L ident inputC)))"
    unfolding parseDesktopEntry_def Exec_parseDesktopEntry_lines
    by (rule scan_entry_lines_keeps_clean)
  have d: "Name (fst (parseDesktopEntry L ident
        (''Name=Foo'' @ [CHR 0x0A] @ ''Exec='' @ [CHR 0x22] @ ''cmd'' @ [CHR 0x22]
         @ '' --flag'' @ [CHR 0x0A]))) = ''Foo''
      \<and> Exec (fst (parseDesktopEntry L ident
        (''Name=Foo'' @ [CHR 0x0A] @ ''Exec='' @ [CHR 0x22] @ ''cmd'' @ [CHR 0x22]
         @ '' --flag'' @ [CHR 0x0A]))) = ''cmd --flag''"
    unfolding parseDesktopEntry_example by simp
  from a b c d show ?thesis by blast
qed


text \<open>C8 on a file with a second section, and on the stream of the example.\<close>

theorem parseDesktopEntry_primary_section_clean_exec_witness:
  "scanner_lines (''[Desktop Entry]'' @ [CHR 0x0A] @ ''Name=Foo'' @ [CHR 0x0A]
       @ ''[Desktop Action new]'' @ [CHR 0x0A] @ ''Name=Bar'' @ [CHR 0x0A])
     = [''[Desktop Entry]'', ''Name=Foo''] @ ''[Desktop Action new]'' # [''Name=Bar'']
   \<and> strings_HasPrefix ''[Desktop Action new]'' ''[''
   \<and> ''[Desktop Action new]'' \<noteq> ''[Desktop Entry]''
   \<and> Name (fst (parseDesktopEntry ''en_US.UTF-8'' ''a.desktop''
        (''[Desktop Entry]'' @ [CHR 0x0A] @ ''Name=Foo'' @ [CHR 0x0A]
         @ ''[Desktop Action new]'' @ [CHR 0x0A] @ ''Name=Bar'' @ [CHR 0x0A]))) = ''Foo''
   \<and> \<not> list_ex section_end [''Name=Foo'']
   \<and> \<not> section_end (''Exec='' @ [CHR 0x22] @ ''cmd'' @ [CHR 0x22] @ '' --flag'')
   \<and> parseKeypair (''Exec='' @ [CHR 0x22] @ ''cmd'' @ [CHR 0x22] @ '' --flag'')
       = (''Exec'', [CHR 0x22] @ ''cmd'' @ [CHR 0x22] @ '' --flag'')
   \<and> Exec (fst (parseDesktopEntry ''en_US.UTF-8'' ''a.desktop''
        (''Name=Foo'' @ [CHR 0x0A] @ ''Exec='' @ [CHR 0x22] @ ''cmd'' @ [CHR 0x22]
         @ '' --flag'' @ [CHR 0x0A])))
       = filter (\<lambda>c. c \<noteq> CHR 0x22 \<and> c \<noteq> CHR 0x27) ([CHR 0x22] @ ''cmd'' @ [CHR 0x22] @ '' --flag'')"
proof -
  let ?in1 = "''[Desktop Entry]'' @ [CHR 0x0A] @ ''Name=Foo'' @ [CHR 0x0A]
       @ ''[Desktop Action new]'' @ [CHR 0x0A] @ ''Name=Bar'' @ [CHR 0x0A]"
  let ?in2 = "''Name=Foo'' @ [CHR 0x0A] @ ''Exec='' @ [CHR 0x22] @ ''cmd'' @ [CHR 0x22]
         @ '' --flag'' @ [CHR 0x0A]"
  let ?el = "''Exec='' @ [CHR 0x22] @ ''cmd'' @ [CHR 0x22] @ '' --flag''"
  let ?v = "[CHR 0x22] @ ''cmd'' @ [CHR 0x22] @ '' --flag''"
  have h1: "strings_HasPrefix ''[Desktop Action new]'' ''[''" by code_simp
  have h2: "''[Desktop Action new]'' \<noteq> ''[Desktop Entry]''" by simp
  have h3: "scanner_lines ?in1
     = [''[Desktop Entry]'', ''Name=Foo''] @ ''[Desktop Action new]'' # [''Name=Bar'']"
    by (simp add: scanner_lines.simps MaxScanTokenSize_def dropCR_def)
  have h4: "\<not> list_ex section_end [''Name=Foo'']" by code_simp
  have h5: "\<not> section_end ?el" by code_simp
  have h6: "parseKeypair ?el = (''Exec'', ?v)" by code_simp
  have h7: "?v \<noteq> []" by simp
  have h8: "scanner_lines ?in2 = [''Name=Foo''] @ [?el]"
    by (simp add: scanner_lines.simps MaxScanTokenSize_def dropCR_def)
  have n: "Name (fst (parseDesktopEntry_lines ''en_US.UTF-8'' ''a.desktop''
       [''[Desktop Entry]'', ''Name=Foo''])) = ''Foo''"
    by code_simp
  note t = parseDesktopEntry_primary_section_clean_exec
    [where l = "''[Desktop Action new]''" and input = ?in1
       and pre = "[''[Desktop Entry]'', ''Name=Foo'']" and post = "[''Name=Bar'']"
       and L = "''en_US.UTF-8''" and ident = "''a.desktop''"
       and ls = "[''Name=Foo'']" and el = ?el and v = ?v and inputB = ?in2 and inputC = ?in2]
  from t h1 h2 h3 have "parseDesktopEntry ''en_US.UTF-8'' ''a.desktop'' ?in1
      = parseDesktopEntry_lines ''en_US.UTF-8'' ''a.desktop'' [''[Desktop Entry]'', ''Name=Foo'']"
    by blast
  with n have r1: "Name (fst (parseDesktopEntry ''en_US.UTF-8'' ''a.desktop'' ?in1)) = ''Foo''"
    by (simp only:)
  from t h4 h5 h6 h7 h8 have r2: "Exec (fst (parseDesktopEntry ''en_US.UTF-8'' ''a.desktop'' ?in2))
       = filter (\<lambda>c. c \<noteq> CHR 0x22 \<and> c \<noteq> CHR 0x27) ?v"
    by blast
  from h1 h2 h3 h4 h5 h6 r1 r2 show ?thesis by blast
qed

text \<open>
  C9: \<open>parseDesktopEntry\<close> returns a \<open>nil\<close> error on every input, so
  \<open>parseDesktopEntryFile\<close> fails exactly when \<open>os.Open\<close> does. A line without \<open>=\<close> has an
  empty value, a line with an empty value changes nothing, a key outside the \<open>switch\<close>
  changes nothing, and a \<open>Terminal\<close> or \<open>NoDisplay\<close> value that \<open>strconv.ParseBool\<close>
  rejects sets the field to \<open>false\<close>.
\<close>

theorem parseDesktopEntry_never_fails:
  "snd (parseDesktopEntry L ident input) = None
   \<and> (snd (parseDesktopEntryFile os_Open L ident path) \<noteq> None) = isl (os_Open path)
   \<and> (\<not> strings_Contains l ''='' \<longrightarrow> parseKeypair l = (l, []))
   \<and> (\<not> section_end skipl \<and> snd (parseKeypair skipl) = []
        \<longrightarrow> scan_entry_lines ln lc (skipl # ls) entry = scan_entry_lines ln lc ls entry)
   \<and> (name \<notin> set [''Name'', ln, ''Comment'', lc, ''Icon'', ''Categories'', ''Terminal'',
                    ''NoDisplay'', ''Exec'']
        \<longrightarrow> assign_key ln lc name v entry = entry)
   \<and> (snd (strconv_ParseBool b) \<noteq> None
        \<longrightarrow> Terminal (assign_key (localized_key ''Name'' L) (localized_key ''Comment'' L)
                        ''Terminal'' b entry) = False
          \<and> NoDisplay (assign_key (localized_key ''Name'' L) (localized_key ''Comment'' L)
                        ''NoDisplay'' b entry) = False)"
proof -
  have a: "snd (parseDesktopEntry L ident input) = None"
    by (simp add: parseDesktopEntry_def parseDesktopEntry_lines_def Let_def)
  have b: "(snd (parseDesktopEntryFile os_Open L ident path) \<noteq> None) = isl (os_Open path)"
    by (cases "os_Open path")
      (simp_all add: parseDesktopEntryFile_def parseDesktopEntry_def parseDesktopEntry_lines_def
        Let_def)
  have c: "parseKeypair l = (l, [])" if "\<not> strings_Contains l ''=''"
    using that by (rule parseKeypair_no_equals)
  have d: "scan_entry_lines ln lc (skipl # ls) entry = scan_entry_lines ln lc ls entry"
    if "\<not> section_end skipl" "snd (parseKeypair skipl) = []"
    using that by (cases "parseKeypair skipl") simp
  have e: "assign_key ln lc name v entry = entry"
    if "name \<notin> set [''Name'', ln, ''Comment'', lc, ''Icon'', ''Categories'', ''Terminal'',
                    ''NoDisplay'', ''Exec'']"
    using that by (simp add: assign_key_def)
  have f: "Terminal (assign_key (localized_key ''Name'' L) (localized_key ''Comment'' L)
                        ''Terminal'' b entry) = False
          \<and> NoDisplay (assign_key (localized_key ''Name'' L) (localized_key ''Comment'' L)
                        ''NoDisplay'' b entry) = False"
    if "snd (strconv_ParseBool b) \<noteq> None"
  proof -
    have "fst (strconv_ParseBool b) = False"
      using that by (simp add: strconv_ParseBool_def split: if_splits)
    then show ?thesis
      using localized_key_neq [of L] by (simp add: assign_key_def)
  qed
  from a b c d e f show ?thesis by blast
qed

text \<open>C9 on a stream of unusable lines and on a path that does not open.\<close>

theorem parseDesktopEntry_never_fails_witness:
  "snd (parseDesktopEntry ''en_US.UTF-8'' ''a.desktop'' (''garbage'' @ [CHR 0x0A] @ ''Terminal=maybe'')) = None
   \<and> snd (parseDesktopEntryFile (\<lambda>p. if p = ''/a.desktop'' then Inr ''Name=Foo'' else Inl PathError)
           ''en_US.UTF-8'' ''b.desktop'' ''/b.desktop'') \<noteq> None
   \<and> \<not> strings_Contains ''garbage'' ''=''
   \<and> parseKeypair ''garbage'' = (''garbage'', [])
   \<and> \<not> section_end ''Name=''
   \<and> snd (parseKeypair ''Name='') = []
   \<and> scan_entry_lines ''Name[en]'' ''Comment[en]'' [''Name='', ''Name=Foo''] zero_desktopEntry
       = scan_entry_lines ''Name[en]'' ''Comment[en]'' [''Name=Foo''] zero_desktopEntry
   \<and> assign_key ''Name[en]'' ''Comment[en]'' ''Version'' ''1.0'' zero_desktopEntry = zero_desktopEntry
   \<and> snd (strconv_ParseBool ''maybe'') \<noteq> None
   \<and> Terminal (assign_key (localized_key ''Name'' ''en_US.UTF-8'')
         (localized_key ''Comment'' ''en_US.UTF-8'') ''Terminal'' ''maybe''
         (zero_desktopEntry\<lparr>Terminal := True\<rparr>)) = False"
proof -
  have h1: "\<not> strings_Contains ''garbage'' ''=''" by code_simp
  have h2: "\<not> section_end ''Name=''" by code_simp
  have h3: "snd (parseKeypair ''Name='') = []" by code_simp
  have h4: "''Version'' \<notin> set [''Name'', ''Name[en]'', ''Comment'', ''Comment[en]'', ''Icon'',
      ''Categories'', ''Terminal'', ''NoDisplay'', ''Exec'']" by simp
  have h5: "snd (strconv_ParseBool ''maybe'') \<noteq> None" by code_simp
  have h6: "isl ((\<lambda>p. if p = ''/a.desktop'' then Inr ''Name=Foo'' else Inl PathError) ''/b.desktop'')"
    by simp
  note t = parseDesktopEntry_never_fails
    [where L = "''en_US.UTF-8''" and ident = "''b.desktop''"
       and input = "''garbage'' @ [CHR 0x0A] @ ''Terminal=maybe''"
       and os_Open = "\<lambda>p. if p = ''/a.desktop'' then Inr ''Name=Foo'' else Inl PathError"
       and path = "''/b.desktop''" and l = "''garbage''" and skipl = "''Name=''"
       and ln = "''Name[en]''" and lc = "''Comment[en]''" and ls = "[''Name=Foo'']"
       and name = "''Version''" and v = "''1.0''" and b = "''maybe''"]
  have r0: "snd (parseDesktopEntry ''en_US.UTF-8'' ''a.desktop''
      (''garbage'' @ [CHR 0x0A] @ ''Terminal=maybe'')) = None"
    by (rule parseDesktopEntry_never_fails [THEN conjunct1])
  from t [where entry = zero_desktopEntry] h6 have r1: "snd (parseDesktopEntryFile
      (\<lambda>p. if p = ''/a.desktop'' then Inr ''Name=Foo'' else Inl PathError)
           ''en_US.UTF-8'' ''b.desktop'' ''/b.desktop'') \<noteq> None" by blast
  from t [where entry = zero_desktopEntry] h1
  have r2: "parseKeypair ''garbage'' = (''garbage'', [])" by blast
  from t [where entry = zero_desktopEntry] h2 h3
  have r3: "scan_entry_lines ''Name[en]'' ''Comment[en]'' [''Name='', ''Name=Foo''] zero_desktopEntry
       = scan_entry_lines ''Name[en]'' ''Comment[en]'' [''Name=Foo''] zero_desktopEntry"
    by blast
  from t [where entry = zero_desktopEntry] h4
  have r4: "assign_key ''Name[en]'' ''Comment[en]'' ''Version'' ''1.0'' zero_desktopEntry
       = zero_desktopEntry"
    by blast
  from t [where entry = "zero_desktopEntry\<lparr>Terminal := True\<rparr>"] h5
  have r5: "Terminal (assign_key (localized_key ''Name'' ''en_US.UTF-8'')
         (localized_key ''Comment'' ''en_US.UTF-8'') ''Terminal'' ''maybe''
         (zero_desktopEntry\<lparr>Terminal := True\<rparr>)) = False" by blast
  from r0 r1 h1 r2 h2 h3 r3 r4 h5 r5 show ?thesis by blast
qed

section \<open>Properties of the entry index\<close>


lemma DesktopID_assign_key: "DesktopID (assign_key ln lc name v entry) = DesktopID entry"
  by (simp add: assign_key_def)

lemma DesktopID_scan_entry_lines: "DesktopID (scan_entry_lines ln lc ls entry) = DesktopID entry"
proof (induction ls arbitrary: entry)
  case Nil
  then show ?case by simp
next
  case (Cons l ls)
  obtain name v where kv: "parseKeypair l = (name, v)" by (cases "parseKeypair l")
  show ?case by (simp add: kv Cons.IH DesktopID_assign_key)
qed

lemma DesktopID_parseDesktopEntry: "DesktopID (fst (parseDesktopEntry L ident input)) = ident"
  by (simp add: parseDesktopEntry_def parseDesktopEntry_lines_def Let_def
      DesktopID_scan_entry_lines)

lemma scan_file_cases:
  "scan_file sys st file =
     (if id2entry st (filepath_Base file) \<noteq> None then st\<lparr>skipped := skipped st + 1\<rparr>
      else (case Open sys file of
              Inl err \<Rightarrow> st
            | Inr input \<Rightarrow>
                (let entry = fst (parseDesktopEntry (LANG sys) (filepath_Base file) input) in
                 st\<lparr>hidden := (if NoDisplay entry then hidden st + 1 else hidden st),
                    id2entry := (id2entry st)(filepath_Base file \<mapsto> entry),
                    desktopEntries := desktopEntries st @ [entry]\<rparr>)))"
proof (cases "Open sys file")
  case (Inl err)
  then show ?thesis by (simp add: scan_file_def parseDesktopEntryFile_def Let_def)
next
  case (Inr input)
  obtain entry where e: "parseDesktopEntry (LANG sys) (filepath_Base file) input = (entry, None)"
    by (simp add: parseDesktopEntry_def parseDesktopEntry_lines_def Let_def)
  have "DesktopID entry = filepath_Base file"
    using DesktopID_parseDesktopEntry [of "LANG sys" "filepath_Base file" input] e by simp
  with Inr e show ?thesis by (simp add: scan_file_def parseDesktopEntryFile_def Let_def)
qed

lemma scan_inv_start: "scan_inv scan_start"
  by (simp add: scan_inv_def scan_start_def)

lemma scan_inv_step: "scan_inv st \<Longrightarrow> scan_inv (scan_file sys st file)"
proof -
  assume inv: "scan_inv st"
  show ?thesis
  proof (cases "id2entry st (filepath_Base file) \<noteq> None")
    case True
    with inv show ?thesis by (simp add: scan_file_cases scan_inv_def)
  next
    case False
    show ?thesis
    proof (cases "Open sys file")
      case (Inl err)
      with False inv show ?thesis by (simp add: scan_file_cases)
    next
      case (Inr input)
      let ?e = "fst (parseDesktopEntry (LANG sys) (filepath_Base file) input)"
      have id: "DesktopID ?e = filepath_Base file" by (rule DesktopID_parseDesktopEntry)
      have fresh: "filepath_Base file \<notin> DesktopID ` set (desktopEntries st)"
        using False inv by (auto simp: scan_inv_def)
      have st': "scan_file sys st file =
          st\<lparr>hidden := (if NoDisplay ?e then hidden st + 1 else hidden st),
             id2entry := (id2entry st)(filepath_Base file \<mapsto> ?e),
             desktopEntries := desktopEntries st @ [?e]\<rparr>"
        using False Inr by (simp add: scan_file_cases Let_def)
      have d: "distinct (map DesktopID (desktopEntries st @ [?e]))"
        using inv fresh id by (simp add: scan_inv_def)
      have m: "dom ((id2entry st)(filepath_Base file \<mapsto> ?e))
          = DesktopID ` set (desktopEntries st @ [?e])"
        using inv id by (simp add: scan_inv_def)
      have l: "\<forall>entry \<in> set (desktopEntries st @ [?e]).
          ((id2entry st)(filepath_Base file \<mapsto> ?e)) (DesktopID entry) = Some entry"
      proof
        fix entry
        assume "entry \<in> set (desktopEntries st @ [?e])"
        then consider "entry = ?e" | "entry \<in> set (desktopEntries st)" by auto
        then show "((id2entry st)(filepath_Base file \<mapsto> ?e)) (DesktopID entry) = Some entry"
        proof cases
          case 1
          then show ?thesis by (simp add: id)
        next
          case 2
          then have "DesktopID entry \<in> DesktopID ` set (desktopEntries st)" by (rule imageI)
          with fresh have "DesktopID entry \<noteq> filepath_Base file" by metis
          moreover have "id2entry st (DesktopID entry) = Some entry"
            using inv 2 by (simp add: scan_inv_def)
          ultimately show ?thesis by simp
        qed
      qed
      from d m l show ?thesis unfolding st' scan_inv_def by simp
    qed
  qed
qed

lemma scan_inv_foldl: "scan_inv st \<Longrightarrow> scan_inv (foldl (scan_file sys) st files)"
  by (induction files arbitrary: st) (simp_all add: scan_inv_step)

lemma scan_inv_scan_files: "scan_inv (scan_files sys files)"
  unfolding scan_files_def by (rule scan_inv_foldl [OF scan_inv_start])

lemma scan_files_snoc:
  "scan_files sys (pre @ [file]) = scan_file sys (scan_files sys pre) file"
  by (simp add: scan_files_def)

lemma dom_scan_file:
  "dom (id2entry (scan_file sys st file)) =
     dom (id2entry st) \<union> (if isl (Open sys file) then {} else {filepath_Base file})"
  by (cases "Open sys file") (auto simp: scan_file_cases Let_def)

lemma dom_foldl_scan_file:
  "dom (id2entry (foldl (scan_file sys) st files)) =
     dom (id2entry st) \<union> filepath_Base ` {g \<in> set files. \<not> isl (Open sys g)}"
  by (induction files arbitrary: st) (auto simp: dom_scan_file)

lemma dom_scan_files:
  "dom (id2entry (scan_files sys files)) = filepath_Base ` {g \<in> set files. \<not> isl (Open sys g)}"
  by (simp add: scan_files_def dom_foldl_scan_file scan_start_def)

lemma scan_file_keeps:
  assumes "id2entry st k = Some entry" and "entry \<in> set (desktopEntries st)"
  shows "id2entry (scan_file sys st file) k = Some entry
       \<and> entry \<in> set (desktopEntries (scan_file sys st file))"
  using assms by (cases "Open sys file") (auto simp: scan_file_cases Let_def)

lemma foldl_scan_file_keeps:
  assumes "id2entry st k = Some entry" and "entry \<in> set (desktopEntries st)"
  shows "id2entry (foldl (scan_file sys) st files) k = Some entry
       \<and> entry \<in> set (desktopEntries (foldl (scan_file sys) st files))"
  using assms
proof (induction files arbitrary: st)
  case Nil
  then show ?case by simp
next
  case (Cons f fs)
  have "id2entry (scan_file sys st f) k = Some entry
       \<and> entry \<in> set (desktopEntries (scan_file sys st f))"
    using Cons.prems by (rule scan_file_keeps)
  then show ?case using Cons.IH [of "scan_file sys st f"] by simp
qed


lemma distinct_ids_mset:
  assumes "mset ys = mset xs" and "distinct (map DesktopID xs)"
  shows "distinct (map DesktopID ys)"
proof -
  have "mset (map DesktopID ys) = mset (map DesktopID xs)" using assms(1) by simp
  then show ?thesis using assms(2) by (metis mset_eq_imp_distinct_iff)
qed

text \<open>
  C5, as stated, fails. The claim lets the first file met with a given name win and
  counts every later file of that name as a skipped duplicate. When the first
  \<open>a.desktop\<close> cannot be opened, the scan does not record its name: the second
  \<open>a.desktop\<close> is parsed and indexed, and the count of skipped duplicates stays \<open>0\<close>.
\<close>

theorem scan_files_duplicate_after_unreadable_counterexample:
  "listDesktopFiles unreadable_first_system =
     [(''/home/u/.local/share/applications'', ''a.desktop''),
      (''/usr/share/applications'', ''a.desktop'')]
   \<and> skipped (scan_files unreadable_first_system (listDesktopFiles unreadable_first_system)) = 0
   \<and> map Name (desktopEntries
        (scan_files unreadable_first_system (listDesktopFiles unreadable_first_system)))
      = [''Second'']"
proof -
  have l: "listDesktopFiles unreadable_first_system =
     [(''/home/u/.local/share/applications'', ''a.desktop''),
      (''/usr/share/applications'', ''a.desktop'')]"
    by (simp add: listDesktopFiles_def unreadable_first_system_def desktop_name_def)
  have s: "scanner_lines ''Name=Second'' = [''Name=Second'']"
    by (simp add: scanner_lines.simps MaxScanTokenSize_def dropCR_def)
  have p: "parseDesktopEntry_lines ''C'' ''a.desktop'' [''Name=Second''] =
      (\<lparr>DesktopID = ''a.desktop'', Name = ''Second'', NameLoc = ''Second'', Comment = [],
        CommentLoc = [], Icon = [], Exec = [], Category = [], Terminal = False,
        NoDisplay = False\<rparr>, None)"
    by code_simp
  show ?thesis
    unfolding l
    by (simp add: scan_files_def scan_file_def scan_start_def filepath_Base_def
        parseDesktopEntryFile_def unreadable_first_system_def parseDesktopEntry_def s p)
qed

lemma entry_of_opened:
  "Open sys candidate = Inr input \<Longrightarrow>
   entry_of sys candidate = fst (parseDesktopEntry (LANG sys) (filepath_Base candidate) input)"
  by (simp add: entry_of_def parseDesktopEntryFile_def)

lemma id2entry_scan_files:
  "(id2entry (scan_files sys pre) (filepath_Base candidate) = None)
     = (\<not> opened_before sys pre candidate)"
proof -
  have "(id2entry (scan_files sys pre) (filepath_Base candidate) = None)
      = (filepath_Base candidate \<notin> dom (id2entry (scan_files sys pre)))"
    by auto
  also have "\<dots> = (\<not> (\<exists>g \<in> set pre. filepath_Base g = filepath_Base candidate
      \<and> \<not> isl (Open sys g)))"
  proof -
    have "(k \<in> filepath_Base ` {g \<in> set pre. \<not> isl (Open sys g)})
        = (\<exists>g \<in> set pre. filepath_Base g = k \<and> \<not> isl (Open sys g))" for k
      by blast
    then show ?thesis unfolding dom_scan_files by simp
  qed
  also have "\<dots> = (\<not> opened_before sys pre candidate)"
    by (simp add: opened_before_def list_ex_iff)
  finally show ?thesis .
qed

lemma scan_files_step:
  "scan_files sys (pre @ [candidate]) =
     (if opened_before sys pre candidate
      then (scan_files sys pre)\<lparr>skipped := skipped (scan_files sys pre) + 1\<rparr>
      else if isl (Open sys candidate) then scan_files sys pre
      else (scan_files sys pre)
             \<lparr>hidden := (if NoDisplay (entry_of sys candidate)
                          then hidden (scan_files sys pre) + 1 else hidden (scan_files sys pre)),
              id2entry := (id2entry (scan_files sys pre))
                             (filepath_Base candidate \<mapsto> entry_of sys candidate),
              desktopEntries := desktopEntries (scan_files sys pre) @ [entry_of sys candidate]\<rparr>)"
proof (cases "opened_before sys pre candidate")
  case True
  then have "id2entry (scan_files sys pre) (filepath_Base candidate) \<noteq> None"
    using id2entry_scan_files [of sys pre candidate] by simp
  with True show ?thesis by (simp add: scan_files_snoc scan_file_cases)
next
  case False
  then have none: "id2entry (scan_files sys pre) (filepath_Base candidate) = None"
    using id2entry_scan_files [of sys pre candidate] by simp
  show ?thesis
  proof (cases "Open sys candidate")
    case (Inl err)
    with False none show ?thesis by (simp add: scan_files_snoc scan_file_cases)
  next
    case (Inr input)
    with False none show ?thesis
      by (simp add: scan_files_snoc scan_file_cases entry_of_opened [OF Inr] Let_def)
  qed
qed

lemma filter_upt_snoc:
  "filter (\<lambda>k. Q (take k (xs @ [x])) ((xs @ [x]) ! k)) [0..<length xs]
     = filter (\<lambda>k. Q (take k xs) (xs ! k)) [0..<length xs]"
  by (rule filter_cong) (auto simp: nth_append)

lemma map_nth_upt_snoc:
  "map (\<lambda>k. f ((xs @ [x]) ! k)) (filter P [0..<length xs])
     = map (\<lambda>k. f (xs ! k)) (filter P [0..<length xs])"
  by (rule map_cong) (auto simp: nth_append)

lemma skipped_scan_files:
  "skipped (scan_files sys files)
     = length (filter (\<lambda>k. opened_before sys (take k files) (files ! k)) [0..<length files])"
proof (induction files rule: rev_induct)
  case Nil
  show ?case by (simp add: scan_files_def scan_start_def)
next
  case (snoc candidate pre)
  have old: "filter (\<lambda>k. opened_before sys (take k (pre @ [candidate])) ((pre @ [candidate]) ! k))
        [0..<length pre]
      = filter (\<lambda>k. opened_before sys (take k pre) (pre ! k)) [0..<length pre]"
    by (rule filter_upt_snoc [of "opened_before sys"])
  have "length (filter (\<lambda>k. opened_before sys (take k (pre @ [candidate])) ((pre @ [candidate]) ! k))
        [0..<length (pre @ [candidate])])
      = length (filter (\<lambda>k. opened_before sys (take k pre) (pre ! k)) [0..<length pre])
        + (if opened_before sys pre candidate then 1 else 0)"
    using old by simp
  moreover have "skipped (scan_files sys (pre @ [candidate]))
      = skipped (scan_files sys pre) + (if opened_before sys pre candidate then 1 else 0)"
    by (simp add: scan_files_step)
  ultimately show ?case using snoc.IH by simp
qed

lemma desktopEntries_scan_files:
  "desktopEntries (scan_files sys files)
     = map (\<lambda>k. entry_of sys (files ! k))
         (filter (\<lambda>k. \<not> opened_before sys (take k files) (files ! k)
                      \<and> \<not> isl (Open sys (files ! k))) [0..<length files])"
proof (induction files rule: rev_induct)
  case Nil
  show ?case by (simp add: scan_files_def scan_start_def)
next
  case (snoc candidate pre)
  let ?Q = "\<lambda>before g. \<not> opened_before sys before g \<and> \<not> isl (Open sys g)"
  have old: "filter (\<lambda>k. ?Q (take k (pre @ [candidate])) ((pre @ [candidate]) ! k)) [0..<length pre]
      = filter (\<lambda>k. ?Q (take k pre) (pre ! k)) [0..<length pre]"
    by (rule filter_upt_snoc [of ?Q])
  have m: "map (\<lambda>k. entry_of sys ((pre @ [candidate]) ! k))
        (filter (\<lambda>k. ?Q (take k pre) (pre ! k)) [0..<length pre])
      = map (\<lambda>k. entry_of sys (pre ! k)) (filter (\<lambda>k. ?Q (take k pre) (pre ! k)) [0..<length pre])"
    by (rule map_nth_upt_snoc)
  have "map (\<lambda>k. entry_of sys ((pre @ [candidate]) ! k))
        (filter (\<lambda>k. ?Q (take k (pre @ [candidate])) ((pre @ [candidate]) ! k))
          [0..<length (pre @ [candidate])])
      = map (\<lambda>k. entry_of sys (pre ! k)) (filter (\<lambda>k. ?Q (take k pre) (pre ! k)) [0..<length pre])
        @ (if ?Q pre candidate then [entry_of sys candidate] else [])"
    using old m by simp
  moreover have "desktopEntries (scan_files sys (pre @ [candidate]))
      = desktopEntries (scan_files sys pre)
        @ (if ?Q pre candidate then [entry_of sys candidate] else [])"
    by (simp add: scan_files_step)
  ultimately show ?case using snoc.IH by simp
qed

lemma transitive_ordering_less_NameLoc: "transitive_ordering less_NameLoc"
  by (auto simp: transitive_ordering_def less_NameLoc_def not_less)

text \<open>
  C5, amended: the ids of the index are pairwise distinct, during the scan and after the
  sort. Each file of the scan does one of three things. If an earlier file of its name
  could be opened, it adds exactly one to the count of skipped duplicates and changes
  nothing else. Otherwise, if it cannot be opened, it changes nothing: its name is not
  recorded and the count stays. Otherwise it is parsed and appended to the index, the
  count unchanged, and it is the descriptor the index holds under its name whatever
  follows. So the count of skipped duplicates is the number of files with an earlier
  opened file of the same name, and the index holds, in scan order, the descriptors of
  the files that open and have no such predecessor.
\<close>

theorem scan_files_first_readable_wins:
  "distinct (map DesktopID (desktopEntries (scan_files sys files)))
   \<and> (sort_Slice_contract sort_Slice
        \<longrightarrow> distinct (map DesktopID (desktopEntries (parseDesktopFiles sort_Slice sys))))
   \<and> (opened_before sys pre candidate
        \<longrightarrow> scan_files sys (pre @ [candidate])
              = (scan_files sys pre)\<lparr>skipped := skipped (scan_files sys pre) + 1\<rparr>)
   \<and> (\<not> opened_before sys pre candidate \<and> isl (Open sys candidate)
        \<longrightarrow> scan_files sys (pre @ [candidate]) = scan_files sys pre)
   \<and> (\<not> opened_before sys pre candidate \<and> \<not> isl (Open sys candidate)
        \<longrightarrow> skipped (scan_files sys (pre @ [candidate])) = skipped (scan_files sys pre)
          \<and> desktopEntries (scan_files sys (pre @ [candidate]))
              = desktopEntries (scan_files sys pre) @ [entry_of sys candidate]
          \<and> id2entry (scan_files sys (pre @ [candidate]))
              = (id2entry (scan_files sys pre))(filepath_Base candidate \<mapsto> entry_of sys candidate))
   \<and> (files = pre @ candidate # post \<and> \<not> opened_before sys pre candidate
        \<and> Open sys candidate = Inr input
        \<longrightarrow> entry_of sys candidate
              = fst (parseDesktopEntry (LANG sys) (filepath_Base candidate) input)
          \<and> id2entry (scan_files sys files) (filepath_Base candidate)
              = Some (entry_of sys candidate)
          \<and> entry_of sys candidate \<in> set (desktopEntries (scan_files sys files))
          \<and> (\<forall>entry \<in> set (desktopEntries (scan_files sys files)).
                DesktopID entry = filepath_Base candidate \<longrightarrow> entry = entry_of sys candidate))
   \<and> skipped (scan_files sys files)
       = length (filter (\<lambda>k. opened_before sys (take k files) (files ! k)) [0..<length files])
   \<and> desktopEntries (scan_files sys files)
       = map (\<lambda>k. entry_of sys (files ! k))
           (filter (\<lambda>k. \<not> opened_before sys (take k files) (files ! k)
                        \<and> \<not> isl (Open sys (files ! k))) [0..<length files])"
proof -
  have a: "distinct (map DesktopID (desktopEntries (scan_files sys files)))" for files
    using scan_inv_scan_files [of sys files] by (simp add: scan_inv_def)
  have b: "distinct (map DesktopID (desktopEntries (parseDesktopFiles sort_Slice sys)))"
    if "sort_Slice_contract sort_Slice"
  proof -
    have "mset (sort_Slice less_NameLoc (desktopEntries (scan_files sys (listDesktopFiles sys))))
        = mset (desktopEntries (scan_files sys (listDesktopFiles sys)))"
      using that transitive_ordering_less_NameLoc by (simp add: sort_Slice_contract_def)
    then have "distinct (map DesktopID
        (sort_Slice less_NameLoc (desktopEntries (scan_files sys (listDesktopFiles sys)))))"
      using a by (rule distinct_ids_mset)
    then show ?thesis by (simp add: parseDesktopFiles_def Let_def)
  qed
  have c: "scan_files sys (pre @ [candidate])
              = (scan_files sys pre)\<lparr>skipped := skipped (scan_files sys pre) + 1\<rparr>"
    if "opened_before sys pre candidate"
    using that by (simp add: scan_files_step)
  have d: "scan_files sys (pre @ [candidate]) = scan_files sys pre"
    if "\<not> opened_before sys pre candidate" "isl (Open sys candidate)"
    using that by (simp add: scan_files_step)
  have e: "skipped (scan_files sys (pre @ [candidate])) = skipped (scan_files sys pre)
          \<and> desktopEntries (scan_files sys (pre @ [candidate]))
              = desktopEntries (scan_files sys pre) @ [entry_of sys candidate]
          \<and> id2entry (scan_files sys (pre @ [candidate]))
              = (id2entry (scan_files sys pre))(filepath_Base candidate \<mapsto> entry_of sys candidate)"
    if "\<not> opened_before sys pre candidate" "\<not> isl (Open sys candidate)"
    using that by (simp add: scan_files_step)
  have f: "entry_of sys candidate
              = fst (parseDesktopEntry (LANG sys) (filepath_Base candidate) input)
          \<and> id2entry (scan_files sys files) (filepath_Base candidate)
              = Some (entry_of sys candidate)
          \<and> entry_of sys candidate \<in> set (desktopEntries (scan_files sys files))
          \<and> (\<forall>entry \<in> set (desktopEntries (scan_files sys files)).
                DesktopID entry = filepath_Base candidate \<longrightarrow> entry = entry_of sys candidate)"
    if fs: "files = pre @ candidate # post" and u: "\<not> opened_before sys pre candidate"
      and o: "Open sys candidate = Inr input"
  proof -
    let ?e = "entry_of sys candidate"
    let ?st = "scan_files sys (pre @ [candidate])"
    have n: "\<not> isl (Open sys candidate)" using o by simp
    have step: "id2entry ?st (filepath_Base candidate) = Some ?e
        \<and> ?e \<in> set (desktopEntries ?st)"
      using e [OF u n] by simp
    have "scan_files sys files = foldl (scan_file sys) ?st post"
      by (simp add: fs scan_files_def)
    then have keep: "id2entry (scan_files sys files) (filepath_Base candidate) = Some ?e
        \<and> ?e \<in> set (desktopEntries (scan_files sys files))"
      using foldl_scan_file_keeps [of ?st "filepath_Base candidate" ?e sys post] step by simp
    have "entry = ?e"
      if "entry \<in> set (desktopEntries (scan_files sys files))"
        "DesktopID entry = filepath_Base candidate" for entry
    proof -
      have "id2entry (scan_files sys files) (DesktopID entry) = Some entry"
        using scan_inv_scan_files [of sys files] that(1) by (simp add: scan_inv_def)
      with keep that(2) show ?thesis by simp
    qed
    with keep entry_of_opened [OF o] show ?thesis by blast
  qed
  note g = skipped_scan_files [of sys files]
  note h = desktopEntries_scan_files [of sys files]
  from a [of files] b c d e f g h show ?thesis by blast
qed

lemma mset_insert_by: "mset (insert_by lt x ys) = add_mset x (mset ys)"
  by (induction ys) simp_all

lemma set_insert_by: "set (insert_by lt x ys) = insert x (set ys)"
  by (induction ys) auto

lemma sorted_insert_by:
  assumes "transitive_ordering lt" and "sorted_wrt (\<lambda>a b. \<not> lt b a) ys"
  shows "sorted_wrt (\<lambda>a b. \<not> lt b a) (insert_by lt x ys)"
  using assms(2)
proof (induction ys)
  case Nil
  then show ?case by simp
next
  case (Cons y ys)
  have irrefl: "\<not> lt a a" for a using assms(1) by (simp add: transitive_ordering_def)
  have trans: "lt a b \<Longrightarrow> lt b c \<Longrightarrow> lt a c" for a b c
    using assms(1) unfolding transitive_ordering_def by blast
  show ?case
  proof (cases "lt x y")
    case True
    have "\<not> lt y x" using True trans [of x y x] irrefl [of x] by blast
    moreover have "\<not> lt z x" if "z \<in> set ys" for z
    proof
      assume "lt z x"
      then have "lt z y" using True by (rule trans)
      moreover have "\<not> lt z y" using Cons.prems that by simp
      ultimately show False by simp
    qed
    ultimately show ?thesis using True Cons.prems by simp
  next
    case False
    then show ?thesis using Cons by (simp add: set_insert_by)
  qed
qed

lemma insertion_sort_contract: "sort_Slice_contract insertion_sort"
proof -
  have m: "mset (insertion_sort lt xs) = mset xs" for lt :: "'a \<Rightarrow> 'a \<Rightarrow> bool" and xs
    by (induction xs) (simp_all add: insertion_sort_def mset_insert_by)
  have s: "sorted_wrt (\<lambda>a b. \<not> lt b a) (insertion_sort lt xs)"
    if "transitive_ordering lt" for lt :: "'a \<Rightarrow> 'a \<Rightarrow> bool" and xs
  proof (induction xs)
    case Nil
    show ?case by (simp add: insertion_sort_def)
  next
    case (Cons x xs)
    have "insertion_sort lt (x # xs) = insert_by lt x (insertion_sort lt xs)"
      by (simp add: insertion_sort_def)
    then show ?case using sorted_insert_by [OF that Cons.IH] by simp
  qed
  from m s show ?thesis unfolding sort_Slice_contract_def by blast
qed

lemma sample_system_files:
  "listDesktopFiles sample_system = [(''/home/u/.local/share/applications'', ''a.desktop''), (''/home/u/.local/share/applications'', ''b.desktop''), (''/home/u/.local/share/applications'', ''c.desktop''), (''/home/u/.local/share/applications'', ''h.desktop''), (''/usr/share/applications'', ''a.desktop''), (''/usr/share/applications'', ''c.desktop'')]"
  by (simp add: listDesktopFiles_def sample_system_def desktop_name_def)

lemma sample_system_entries:
  "entry_of sample_system (''/home/u/.local/share/applications'', ''a.desktop'') = \<lparr>DesktopID = ''a.desktop'', Name = ''Zeta'', NameLoc = ''Zeta'', Comment = [],
          CommentLoc = [], Icon = [], Exec = [], Category = [], Terminal = False,
          NoDisplay = False\<rparr>"
  "entry_of sample_system (''/home/u/.local/share/applications'', ''b.desktop'') = \<lparr>DesktopID = ''b.desktop'', Name = ''Beta'', NameLoc = ''Beta'', Comment = [],
          CommentLoc = [], Icon = [], Exec = [], Category = [], Terminal = False,
          NoDisplay = False\<rparr>"
  "entry_of sample_system (''/home/u/.local/share/applications'', ''h.desktop'') = \<lparr>DesktopID = ''h.desktop'', Name = ''Hidden'', NameLoc = ''Hidden'', Comment = [],
          CommentLoc = [], Icon = [], Exec = [], Category = [], Terminal = False,
          NoDisplay = True\<rparr>"
  "entry_of sample_system (''/usr/share/applications'', ''c.desktop'') = \<lparr>DesktopID = ''c.desktop'', Name = ''Gamma'', NameLoc = ''Gamma'', Comment = [],
          CommentLoc = [], Icon = [], Exec = [], Category = [], Terminal = False,
          NoDisplay = False\<rparr>"
proof -
  have s: "scanner_lines ''Name=Zeta'' = [''Name=Zeta'']"
    "scanner_lines ''Name=Beta'' = [''Name=Beta'']"
    "scanner_lines ''Name=Gamma'' = [''Name=Gamma'']"
    "scanner_lines ''Name=Hidden\<newline>NoDisplay=true'' = [''Name=Hidden'', ''NoDisplay=true'']"
    by (simp_all add: scanner_lines.simps MaxScanTokenSize_def dropCR_def)
  have p: "parseDesktopEntry_lines ''en_US.UTF-8'' ''a.desktop'' [''Name=Zeta''] = (\<lparr>DesktopID = ''a.desktop'', Name = ''Zeta'', NameLoc = ''Zeta'', Comment = [],
          CommentLoc = [], Icon = [], Exec = [], Category = [], Terminal = False,
          NoDisplay = False\<rparr>, None)"
    "parseDesktopEntry_lines ''en_US.UTF-8'' ''b.desktop'' [''Name=Beta''] = (\<lparr>DesktopID = ''b.desktop'', Name = ''Beta'', NameLoc = ''Beta'', Comment = [],
          CommentLoc = [], Icon = [], Exec = [], Category = [], Terminal = False,
          NoDisplay = False\<rparr>, None)"
    "parseDesktopEntry_lines ''en_US.UTF-8'' ''c.desktop'' [''Name=Gamma''] = (\<lparr>DesktopID = ''c.desktop'', Name = ''Gamma'', NameLoc = ''Gamma'', Comment = [],
          CommentLoc = [], Icon = [], Exec = [], Category = [], Terminal = False,
          NoDisplay = False\<rparr>, None)"
    "parseDesktopEntry_lines ''en_US.UTF-8'' ''h.desktop'' [''Name=Hidden'', ''NoDisplay=true'']
      = (\<lparr>DesktopID = ''h.desktop'', Name = ''Hidden'', NameLoc = ''Hidden'', Comment = [],
          CommentLoc = [], Icon = [], Exec = [], Category = [], Terminal = False,
          NoDisplay = True\<rparr>, None)"
    by code_simp+
  show "entry_of sample_system (''/home/u/.local/share/applications'', ''a.desktop'') = \<lparr>DesktopID = ''a.desktop'', Name = ''Zeta'', NameLoc = ''Zeta'', Comment = [],
          CommentLoc = [], Icon = [], Exec = [], Category = [], Terminal = False,
          NoDisplay = False\<rparr>"
    "entry_of sample_system (''/home/u/.local/share/applications'', ''b.desktop'') = \<lparr>DesktopID = ''b.desktop'', Name = ''Beta'', NameLoc = ''Beta'', Comment = [],
          CommentLoc = [], Icon = [], Exec = [], Category = [], Terminal = False,
          NoDisplay = False\<rparr>"
    "entry_of sample_system (''/home/u/.local/share/applications'', ''h.desktop'') = \<lparr>DesktopID = ''h.desktop'', Name = ''Hidden'', NameLoc = ''Hidden'', Comment = [],
          CommentLoc = [], Icon = [], Exec = [], Category = [], Terminal = False,
          NoDisplay = True\<rparr>"
    "entry_of sample_system (''/usr/share/applications'', ''c.desktop'') = \<lparr>DesktopID = ''c.desktop'', Name = ''Gamma'', NameLoc = ''Gamma'', Comment = [],
          CommentLoc = [], Icon = [], Exec = [], Category = [], Terminal = False,
          NoDisplay = False\<rparr>"
    by (simp_all add: entry_of_def parseDesktopEntryFile_def sample_system_def filepath_Base_def
        parseDesktopEntry_def s p)
qed

lemma sample_system_opened:
  "opened_before sample_system [(''/home/u/.local/share/applications'', ''a.desktop''), (''/home/u/.local/share/applications'', ''b.desktop''), (''/home/u/.local/share/applications'', ''c.desktop''), (''/home/u/.local/share/applications'', ''h.desktop'')] (''/usr/share/applications'', ''a.desktop'')"
  "\<not> opened_before sample_system [(''/home/u/.local/share/applications'', ''a.desktop''), (''/home/u/.local/share/applications'', ''b.desktop'')] (''/home/u/.local/share/applications'', ''c.desktop'')"
  "isl (Open sample_system (''/home/u/.local/share/applications'', ''c.desktop''))"
  "\<not> opened_before sample_system [(''/home/u/.local/share/applications'', ''a.desktop''), (''/home/u/.local/share/applications'', ''b.desktop''), (''/home/u/.local/share/applications'', ''c.desktop''), (''/home/u/.local/share/applications'', ''h.desktop''), (''/usr/share/applications'', ''a.desktop'')] (''/usr/share/applications'', ''c.desktop'')"
  "Open sample_system (''/usr/share/applications'', ''c.desktop'') = Inr ''Name=Gamma''"
  by (simp_all add: opened_before_def sample_system_def filepath_Base_def)

lemma sample_system_counts:
  "length (filter (\<lambda>k. opened_before sample_system (take k [(''/home/u/.local/share/applications'', ''a.desktop''), (''/home/u/.local/share/applications'', ''b.desktop''), (''/home/u/.local/share/applications'', ''c.desktop''), (''/home/u/.local/share/applications'', ''h.desktop''), (''/usr/share/applications'', ''a.desktop''), (''/usr/share/applications'', ''c.desktop'')])
       ([(''/home/u/.local/share/applications'', ''a.desktop''), (''/home/u/.local/share/applications'', ''b.desktop''), (''/home/u/.local/share/applications'', ''c.desktop''), (''/home/u/.local/share/applications'', ''h.desktop''), (''/usr/share/applications'', ''a.desktop''), (''/usr/share/applications'', ''c.desktop'')] ! k)) [0..<length [(''/home/u/.local/share/applications'', ''a.desktop''), (''/home/u/.local/share/applications'', ''b.desktop''), (''/home/u/.local/share/applications'', ''c.desktop''), (''/home/u/.local/share/applications'', ''h.desktop''), (''/usr/share/applications'', ''a.desktop''), (''/usr/share/applications'', ''c.desktop'')]]) = 1"
  "map (\<lambda>k. entry_of sample_system ([(''/home/u/.local/share/applications'', ''a.desktop''), (''/home/u/.local/share/applications'', ''b.desktop''), (''/home/u/.local/share/applications'', ''c.desktop''), (''/home/u/.local/share/applications'', ''h.desktop''), (''/usr/share/applications'', ''a.desktop''), (''/usr/share/applications'', ''c.desktop'')] ! k))
     (filter (\<lambda>k. \<not> opened_before sample_system (take k [(''/home/u/.local/share/applications'', ''a.desktop''), (''/home/u/.local/share/applications'', ''b.desktop''), (''/home/u/.local/share/applications'', ''c.desktop''), (''/home/u/.local/share/applications'', ''h.desktop''), (''/usr/share/applications'', ''a.desktop''), (''/usr/share/applications'', ''c.desktop'')])
                      ([(''/home/u/.local/share/applications'', ''a.desktop''), (''/home/u/.local/share/applications'', ''b.desktop''), (''/home/u/.local/share/applications'', ''c.desktop''), (''/home/u/.local/share/applications'', ''h.desktop''), (''/usr/share/applications'', ''a.desktop''), (''/usr/share/applications'', ''c.desktop'')] ! k)
                  \<and> \<not> isl (Open sample_system ([(''/home/u/.local/share/applications'', ''a.desktop''), (''/home/u/.local/share/applications'', ''b.desktop''), (''/home/u/.local/share/applications'', ''c.desktop''), (''/home/u/.local/share/applications'', ''h.desktop''), (''/usr/share/applications'', ''a.desktop''), (''/usr/share/applications'', ''c.desktop'')] ! k)))
        [0..<length [(''/home/u/.local/share/applications'', ''a.desktop''), (''/home/u/.local/share/applications'', ''b.desktop''), (''/home/u/.local/share/applications'', ''c.desktop''), (''/home/u/.local/share/applications'', ''h.desktop''), (''/usr/share/applications'', ''a.desktop''), (''/usr/share/applications'', ''c.desktop'')]])
   = map (entry_of sample_system) [(''/home/u/.local/share/applications'', ''a.desktop''), (''/home/u/.local/share/applications'', ''b.desktop''), (''/home/u/.local/share/applications'', ''h.desktop''), (''/usr/share/applications'', ''c.desktop'')]"
  by (simp_all add: opened_before_def sample_system_def filepath_Base_def)

lemma sample_system_sorted:
  "insertion_sort less_NameLoc [\<lparr>DesktopID = ''a.desktop'', Name = ''Zeta'', NameLoc = ''Zeta'', Comment = [],
          CommentLoc = [], Icon = [], Exec = [], Category = [], Terminal = False,
          NoDisplay = False\<rparr>, \<lparr>DesktopID = ''b.desktop'', Name = ''Beta'', NameLoc = ''Beta'', Comment = [],
          CommentLoc = [], Icon = [], Exec = [], Category = [], Terminal = False,
          NoDisplay = False\<rparr>, \<lparr>DesktopID = ''h.desktop'', Name = ''Hidden'', NameLoc = ''Hidden'', Comment = [],
          CommentLoc = [], Icon = [], Exec = [], Category = [], Terminal = False,
          NoDisplay = True\<rparr>, \<lparr>DesktopID = ''c.desktop'', Name = ''Gamma'', NameLoc = ''Gamma'', Comment = [],
          CommentLoc = [], Icon = [], Exec = [], Category = [], Terminal = False,
          NoDisplay = False\<rparr>] = [\<lparr>DesktopID = ''b.desktop'', Name = ''Beta'', NameLoc = ''Beta'', Comment = [],
          CommentLoc = [], Icon = [], Exec = [], Category = [], Terminal = False,
          NoDisplay = False\<rparr>, \<lparr>DesktopID = ''c.desktop'', Name = ''Gamma'', NameLoc = ''Gamma'', Comment = [],
          CommentLoc = [], Icon = [], Exec = [], Category = [], Terminal = False,
          NoDisplay = False\<rparr>, \<lparr>DesktopID = ''h.desktop'', Name = ''Hidden'', NameLoc = ''Hidden'', Comment = [],
          CommentLoc = [], Icon = [], Exec = [], Category = [], Terminal = False,
          NoDisplay = True\<rparr>, \<lparr>DesktopID = ''a.desktop'', Name = ''Zeta'', NameLoc = ''Zeta'', Comment = [],
          CommentLoc = [], Icon = [], Exec = [], Category = [], Terminal = False,
          NoDisplay = False\<rparr>]"
  by (simp add: insertion_sort_def less_NameLoc_def less_char_def)

text \<open>
  The amended C5 on the second sample system: the second \<open>a.desktop\<close> is a skipped
  duplicate, the first \<open>c.desktop\<close> cannot be opened and changes nothing, and the
  second \<open>c.desktop\<close> is the one in the index.
\<close>

theorem scan_files_first_readable_wins_witness:
  "sort_Slice_contract (insertion_sort :: (desktopEntry \<Rightarrow> desktopEntry \<Rightarrow> bool) \<Rightarrow> _)
   \<and> distinct (map DesktopID (desktopEntries (parseDesktopFiles insertion_sort sample_system)))
   \<and> opened_before sample_system [(''/home/u/.local/share/applications'', ''a.desktop''), (''/home/u/.local/share/applications'', ''b.desktop''), (''/home/u/.local/share/applications'', ''c.desktop''), (''/home/u/.local/share/applications'', ''h.desktop'')] (''/usr/share/applications'', ''a.desktop'')
   \<and> scan_files sample_system ([(''/home/u/.local/share/applications'', ''a.desktop''), (''/home/u/.local/share/applications'', ''b.desktop''), (''/home/u/.local/share/applications'', ''c.desktop''), (''/home/u/.local/share/applications'', ''h.desktop'')] @ [(''/usr/share/applications'', ''a.desktop'')])
       = (scan_files sample_system [(''/home/u/.local/share/applications'', ''a.desktop''), (''/home/u/.local/share/applications'', ''b.desktop''), (''/home/u/.local/share/applications'', ''c.desktop''), (''/home/u/.local/share/applications'', ''h.desktop'')])
           \<lparr>skipped := skipped (scan_files sample_system [(''/home/u/.local/share/applications'', ''a.desktop''), (''/home/u/.local/share/applications'', ''b.desktop''), (''/home/u/.local/share/applications'', ''c.desktop''), (''/home/u/.local/share/applications'', ''h.desktop'')]) + 1\<rparr>
   \<and> \<not> opened_before sample_system [(''/home/u/.local/share/applications'', ''a.desktop''), (''/home/u/.local/share/applications'', ''b.desktop'')] (''/home/u/.local/share/applications'', ''c.desktop'')
   \<and> isl (Open sample_system (''/home/u/.local/share/applications'', ''c.desktop''))
   \<and> scan_files sample_system ([(''/home/u/.local/share/applications'', ''a.desktop''), (''/home/u/.local/share/applications'', ''b.desktop'')] @ [(''/home/u/.local/share/applications'', ''c.desktop'')]) = scan_files sample_system [(''/home/u/.local/share/applications'', ''a.desktop''), (''/home/u/.local/share/applications'', ''b.desktop'')]
   \<and> \<not> opened_before sample_system [(''/home/u/.local/share/applications'', ''a.desktop''), (''/home/u/.local/share/applications'', ''b.desktop''), (''/home/u/.local/share/applications'', ''c.desktop''), (''/home/u/.local/share/applications'', ''h.desktop''), (''/usr/share/applications'', ''a.desktop'')] (''/usr/share/applications'', ''c.desktop'')
   \<and> Open sample_system (''/usr/share/applications'', ''c.desktop'') = Inr ''Name=Gamma''
   \<and> skipped (scan_files sample_system ([(''/home/u/.local/share/applications'', ''a.desktop''), (''/home/u/.local/share/applications'', ''b.desktop''), (''/home/u/.local/share/applications'', ''c.desktop''), (''/home/u/.local/share/applications'', ''h.desktop''), (''/usr/share/applications'', ''a.desktop'')] @ [(''/usr/share/applications'', ''c.desktop'')]))
       = skipped (scan_files sample_system [(''/home/u/.local/share/applications'', ''a.desktop''), (''/home/u/.local/share/applications'', ''b.desktop''), (''/home/u/.local/share/applications'', ''c.desktop''), (''/home/u/.local/share/applications'', ''h.desktop''), (''/usr/share/applications'', ''a.desktop'')])
   \<and> id2entry (scan_files sample_system (listDesktopFiles sample_system)) ''c.desktop''
       = Some \<lparr>DesktopID = ''c.desktop'', Name = ''Gamma'', NameLoc = ''Gamma'', Comment = [],
          CommentLoc = [], Icon = [], Exec = [], Category = [], Terminal = False,
          NoDisplay = False\<rparr>
   \<and> skipped (scan_files sample_system (listDesktopFiles sample_system)) = 1
   \<and> desktopEntries (scan_files sample_system (listDesktopFiles sample_system))
       = [\<lparr>DesktopID = ''a.desktop'', Name = ''Zeta'', NameLoc = ''Zeta'', Comment = [],
          CommentLoc = [], Icon = [], Exec = [], Category = [], Terminal = False,
          NoDisplay = False\<rparr>, \<lparr>DesktopID = ''b.desktop'', Name = ''Beta'', NameLoc = ''Beta'', Comment = [],
          CommentLoc = [], Icon = [], Exec = [], Category = [], Terminal = False,
          NoDisplay = False\<rparr>, \<lparr>DesktopID = ''h.desktop'', Name = ''Hidden'', NameLoc = ''Hidden'', Comment = [],
          CommentLoc = [], Icon = [], Exec = [], Category = [], Terminal = False,
          NoDisplay = True\<rparr>, \<lparr>DesktopID = ''c.desktop'', Name = ''Gamma'', NameLoc = ''Gamma'', Comment = [],
          CommentLoc = [], Icon = [], Exec = [], Category = [], Terminal = False,
          NoDisplay = False\<rparr>]"
proof -
  let ?S = sample_system
  let ?F = "listDesktopFiles sample_system"
  have h0: "sort_Slice_contract
      (insertion_sort :: (desktopEntry \<Rightarrow> desktopEntry \<Rightarrow> bool) \<Rightarrow> _)"
    by (rule insertion_sort_contract)
  note o = sample_system_opened
  have n: "\<not> isl (Open ?S (''/usr/share/applications'', ''c.desktop''))" by (simp add: o(5))
  have fs: "?F = [(''/home/u/.local/share/applications'', ''a.desktop''), (''/home/u/.local/share/applications'', ''b.desktop''), (''/home/u/.local/share/applications'', ''c.desktop''), (''/home/u/.local/share/applications'', ''h.desktop''), (''/usr/share/applications'', ''a.desktop'')] @ (''/usr/share/applications'', ''c.desktop'') # []" by (simp add: sample_system_files)
  note t1 = scan_files_first_readable_wins
    [where sys = ?S and files = ?F and sort_Slice = insertion_sort
       and pre = "[(''/home/u/.local/share/applications'', ''a.desktop''), (''/home/u/.local/share/applications'', ''b.desktop''), (''/home/u/.local/share/applications'', ''c.desktop''), (''/home/u/.local/share/applications'', ''h.desktop'')]" and candidate = "(''/usr/share/applications'', ''a.desktop'')" and post = "[]" and input = "[]"]
  note t2 = scan_files_first_readable_wins
    [where sys = ?S and files = ?F and sort_Slice = insertion_sort
       and pre = "[(''/home/u/.local/share/applications'', ''a.desktop''), (''/home/u/.local/share/applications'', ''b.desktop'')]" and candidate = "(''/home/u/.local/share/applications'', ''c.desktop'')" and post = "[]" and input = "[]"]
  note t3 = scan_files_first_readable_wins
    [where sys = ?S and files = ?F and sort_Slice = insertion_sort
       and pre = "[(''/home/u/.local/share/applications'', ''a.desktop''), (''/home/u/.local/share/applications'', ''b.desktop''), (''/home/u/.local/share/applications'', ''c.desktop''), (''/home/u/.local/share/applications'', ''h.desktop''), (''/usr/share/applications'', ''a.desktop'')]" and candidate = "(''/usr/share/applications'', ''c.desktop'')" and post = "[]"
       and input = "''Name=Gamma''"]
  from t1 h0 have r1: "distinct (map DesktopID
      (desktopEntries (parseDesktopFiles insertion_sort ?S)))"
    by blast
  from t1 o(1) have r2: "scan_files ?S ([(''/home/u/.local/share/applications'', ''a.desktop''), (''/home/u/.local/share/applications'', ''b.desktop''), (''/home/u/.local/share/applications'', ''c.desktop''), (''/home/u/.local/share/applications'', ''h.desktop'')] @ [(''/usr/share/applications'', ''a.desktop'')])
       = (scan_files ?S [(''/home/u/.local/share/applications'', ''a.desktop''), (''/home/u/.local/share/applications'', ''b.desktop''), (''/home/u/.local/share/applications'', ''c.desktop''), (''/home/u/.local/share/applications'', ''h.desktop'')])
           \<lparr>skipped := skipped (scan_files ?S [(''/home/u/.local/share/applications'', ''a.desktop''), (''/home/u/.local/share/applications'', ''b.desktop''), (''/home/u/.local/share/applications'', ''c.desktop''), (''/home/u/.local/share/applications'', ''h.desktop'')]) + 1\<rparr>"
    by blast
  from t2 o(2) o(3) have r3: "scan_files ?S ([(''/home/u/.local/share/applications'', ''a.desktop''), (''/home/u/.local/share/applications'', ''b.desktop'')] @ [(''/home/u/.local/share/applications'', ''c.desktop'')]) = scan_files ?S [(''/home/u/.local/share/applications'', ''a.desktop''), (''/home/u/.local/share/applications'', ''b.desktop'')]"
    by blast
  from t3 o(4) n have r4: "skipped (scan_files ?S ([(''/home/u/.local/share/applications'', ''a.desktop''), (''/home/u/.local/share/applications'', ''b.desktop''), (''/home/u/.local/share/applications'', ''c.desktop''), (''/home/u/.local/share/applications'', ''h.desktop''), (''/usr/share/applications'', ''a.desktop'')] @ [(''/usr/share/applications'', ''c.desktop'')]))
       = skipped (scan_files ?S [(''/home/u/.local/share/applications'', ''a.desktop''), (''/home/u/.local/share/applications'', ''b.desktop''), (''/home/u/.local/share/applications'', ''c.desktop''), (''/home/u/.local/share/applications'', ''h.desktop''), (''/usr/share/applications'', ''a.desktop'')])"
    by blast
  from t3 fs o(4) o(5)
  have "id2entry (scan_files ?S ?F) (filepath_Base (''/usr/share/applications'', ''c.desktop'')) = Some (entry_of ?S (''/usr/share/applications'', ''c.desktop''))"
    by blast
  then have r5: "id2entry (scan_files ?S ?F) ''c.desktop'' = Some \<lparr>DesktopID = ''c.desktop'', Name = ''Gamma'', NameLoc = ''Gamma'', Comment = [],
          CommentLoc = [], Icon = [], Exec = [], Category = [], Terminal = False,
          NoDisplay = False\<rparr>"
    by (simp add: filepath_Base_def sample_system_entries)
  from t3 have "skipped (scan_files ?S ?F)
       = length (filter (\<lambda>k. opened_before ?S (take k ?F) (?F ! k)) [0..<length ?F])"
    by blast
  then have r6: "skipped (scan_files ?S ?F) = 1"
    unfolding sample_system_files sample_system_counts .
  from t3 have "desktopEntries (scan_files ?S ?F)
       = map (\<lambda>k. entry_of ?S (?F ! k))
           (filter (\<lambda>k. \<not> opened_before ?S (take k ?F) (?F ! k)
                        \<and> \<not> isl (Open ?S (?F ! k))) [0..<length ?F])"
    by blast
  then have r7: "desktopEntries (scan_files ?S ?F) = [\<lparr>DesktopID = ''a.desktop'', Name = ''Zeta'', NameLoc = ''Zeta'', Comment = [],
          CommentLoc = [], Icon = [], Exec = [], Category = [], Terminal = False,
          NoDisplay = False\<rparr>, \<lparr>DesktopID = ''b.desktop'', Name = ''Beta'', NameLoc = ''Beta'', Comment = [],
          CommentLoc = [], Icon = [], Exec = [], Category = [], Terminal = False,
          NoDisplay = False\<rparr>, \<lparr>DesktopID = ''h.desktop'', Name = ''Hidden'', NameLoc = ''Hidden'', Comment = [],
          CommentLoc = [], Icon = [], Exec = [], Category = [], Terminal = False,
          NoDisplay = True\<rparr>, \<lparr>DesktopID = ''c.desktop'', Name = ''Gamma'', NameLoc = ''Gamma'', Comment = [],
          CommentLoc = [], Icon = [], Exec = [], Category = [], Terminal = False,
          NoDisplay = False\<rparr>]"
    unfolding sample_system_files sample_system_counts by (simp add: sample_system_entries)
  from h0 r1 o(1) r2 o(2) o(3) r3 o(4) o(5) r4 r5 r6 r7 show ?thesis by (intro conjI)
qed

lemma sample_system_index:
  "desktopEntries (parseDesktopFiles insertion_sort sample_system)
     = [\<lparr>DesktopID = ''b.desktop'', Name = ''Beta'', NameLoc = ''Beta'', Comment = [],
          CommentLoc = [], Icon = [], Exec = [], Category = [], Terminal = False,
          NoDisplay = False\<rparr>, \<lparr>DesktopID = ''c.desktop'', Name = ''Gamma'', NameLoc = ''Gamma'', Comment = [],
          CommentLoc = [], Icon = [], Exec = [], Category = [], Terminal = False,
          NoDisplay = False\<rparr>, \<lparr>DesktopID = ''h.desktop'', Name = ''Hidden'', NameLoc = ''Hidden'', Comment = [],
          CommentLoc = [], Icon = [], Exec = [], Category = [], Terminal = False,
          NoDisplay = True\<rparr>, \<lparr>DesktopID = ''a.desktop'', Name = ''Zeta'', NameLoc = ''Zeta'', Comment = [],
          CommentLoc = [], Icon = [], Exec = [], Category = [], Terminal = False,
          NoDisplay = False\<rparr>]"
proof -
  have "desktopEntries (scan_files sample_system (listDesktopFiles sample_system))
      = [\<lparr>DesktopID = ''a.desktop'', Name = ''Zeta'', NameLoc = ''Zeta'', Comment = [],
          CommentLoc = [], Icon = [], Exec = [], Category = [], Terminal = False,
          NoDisplay = False\<rparr>, \<lparr>DesktopID = ''b.desktop'', Name = ''Beta'', NameLoc = ''Beta'', Comment = [],
          CommentLoc = [], Icon = [], Exec = [], Category = [], Terminal = False,
          NoDisplay = False\<rparr>, \<lparr>DesktopID = ''h.desktop'', Name = ''Hidden'', NameLoc = ''Hidden'', Comment = [],
          CommentLoc = [], Icon = [], Exec = [], Category = [], Terminal = False,
          NoDisplay = True\<rparr>, \<lparr>DesktopID = ''c.desktop'', Name = ''Gamma'', NameLoc = ''Gamma'', Comment = [],
          CommentLoc = [], Icon = [], Exec = [], Category = [], Terminal = False,
          NoDisplay = False\<rparr>]"
    unfolding desktopEntries_scan_files sample_system_files sample_system_counts
    by (simp add: sample_system_entries)
  moreover have "desktopEntries (parseDesktopFiles insertion_sort sample_system)
      = insertion_sort less_NameLoc
          (desktopEntries (scan_files sample_system (listDesktopFiles sample_system)))"
    by (simp add: parseDesktopFiles_def Let_def)
  ultimately show ?thesis by (simp only: sample_system_sorted)
qed

lemma setUpAppsFlowBox_filter:
  "setUpAppsFlowBox toLower entries searchPhrase =
     filter (\<lambda>entry. phrase_matches toLower searchPhrase entry \<and> \<not> NoDisplay entry) entries"
  by (induction entries) simp_all

text \<open>
  C4: after a refresh the index is a rearrangement of the scanned descriptors; the empty
  phrase shows exactly its descriptors without \<open>NoDisplay\<close>, in the order of the index,
  which is ascending in \<open>NameLoc\<close> (byte-wise comparison) because \<open>sort.Slice\<close> is given
  the comparison \<open>NameLoc < NameLoc\<close>; and no phrase shows a descriptor with
  \<open>NoDisplay\<close>.
\<close>

theorem empty_query_lists_visible_entries_sorted:
  assumes "sort_Slice_contract sort_Slice"
    and "index = desktopEntries (parseDesktopFiles sort_Slice sys)"
  shows "mset index = mset (desktopEntries (scan_files sys (listDesktopFiles sys)))
       \<and> setUpAppsFlowBox toLower index [] = filter (\<lambda>entry. \<not> NoDisplay entry) index
       \<and> sorted_wrt (\<lambda>a b. NameLoc a \<le> NameLoc b) (setUpAppsFlowBox toLower index [])
       \<and> (\<forall>entry \<in> set (setUpAppsFlowBox toLower index searchPhrase). \<not> NoDisplay entry)"
proof -
  have idx: "index = sort_Slice less_NameLoc (desktopEntries (scan_files sys (listDesktopFiles sys)))"
    using assms(2) by (simp add: parseDesktopFiles_def Let_def)
  have c: "mset (sort_Slice less_NameLoc xs) = mset xs
      \<and> sorted_wrt (\<lambda>a b. \<not> less_NameLoc b a) (sort_Slice less_NameLoc xs)" for xs
    using assms(1) transitive_ordering_less_NameLoc unfolding sort_Slice_contract_def by blast
  have m: "mset index = mset (desktopEntries (scan_files sys (listDesktopFiles sys)))"
    using c by (simp add: idx)
  have f: "setUpAppsFlowBox toLower index [] = filter (\<lambda>entry. \<not> NoDisplay entry) index"
    by (simp add: setUpAppsFlowBox_filter phrase_matches_def)
  have "sorted_wrt (\<lambda>a b. \<not> less_NameLoc b a) index"
    using c by (simp add: idx)
  then have "sorted_wrt (\<lambda>a b. NameLoc a \<le> NameLoc b) index"
    by (simp add: less_NameLoc_def not_less)
  then have s: "sorted_wrt (\<lambda>a b. NameLoc a \<le> NameLoc b) (setUpAppsFlowBox toLower index [])"
    unfolding f by (rule sorted_wrt_filter)
  have n: "\<forall>entry \<in> set (setUpAppsFlowBox toLower index searchPhrase). \<not> NoDisplay entry"
    by (simp add: setUpAppsFlowBox_filter)
  from m f s n show ?thesis by blast
qed

text \<open>C4 on the second sample system, sorted by insertion sort.\<close>

theorem empty_query_lists_visible_entries_sorted_witness:
  "sort_Slice_contract (insertion_sort :: (desktopEntry \<Rightarrow> desktopEntry \<Rightarrow> bool) \<Rightarrow> _)
   \<and> map Name (desktopEntries (parseDesktopFiles insertion_sort sample_system))
       = [''Beta'', ''Gamma'', ''Hidden'', ''Zeta'']
   \<and> map Name (setUpAppsFlowBox (\<lambda>s. s)
        (desktopEntries (parseDesktopFiles insertion_sort sample_system)) [])
       = [''Beta'', ''Gamma'', ''Zeta'']
   \<and> sorted_wrt (\<lambda>a b. NameLoc a \<le> NameLoc b) (setUpAppsFlowBox (\<lambda>s. s)
        (desktopEntries (parseDesktopFiles insertion_sort sample_system)) [])
   \<and> setUpAppsFlowBox (\<lambda>s. s)
        (desktopEntries (parseDesktopFiles insertion_sort sample_system)) ''Hidden'' = []
   \<and> map Name (setUpAppsFlowBox (\<lambda>s. s)
        (desktopEntries (parseDesktopFiles insertion_sort sample_system)) ''eta'')
       = [''Beta'', ''Zeta'']"
proof -
  let ?index = "desktopEntries (parseDesktopFiles insertion_sort sample_system)"
  have h1: "sort_Slice_contract
      (insertion_sort :: (desktopEntry \<Rightarrow> desktopEntry \<Rightarrow> bool) \<Rightarrow> _)"
    by (rule insertion_sort_contract)
  note t = empty_query_lists_visible_entries_sorted
    [OF h1 refl, of sample_system "\<lambda>s. s" "''Hidden''"]
  have r1: "map Name ?index = [''Beta'', ''Gamma'', ''Hidden'', ''Zeta'']"
    by (simp add: sample_system_index)
  from t have "setUpAppsFlowBox (\<lambda>s. s) ?index [] = filter (\<lambda>entry. \<not> NoDisplay entry) ?index"
    by blast
  then have r2: "map Name (setUpAppsFlowBox (\<lambda>s. s) ?index []) = [''Beta'', ''Gamma'', ''Zeta'']"
    by (simp add: sample_system_index)
  from t have r3: "sorted_wrt (\<lambda>a b. NameLoc a \<le> NameLoc b) (setUpAppsFlowBox (\<lambda>s. s) ?index [])"
    by blast
  have r5: "setUpAppsFlowBox (\<lambda>s. s) ?index ''Hidden'' = []"
    unfolding sample_system_index
    by (simp add: phrase_matches_def strings_Contains_def strings_HasPrefix_def)
  have r6: "map Name (setUpAppsFlowBox (\<lambda>s. s) ?index ''eta'') = [''Beta'', ''Zeta'']"
    unfolding sample_system_index
    by (simp add: phrase_matches_def strings_Contains_def strings_HasPrefix_def)
  from h1 r1 r2 r3 r5 r6 show ?thesis by blast
qed

section \<open>Properties of the instance lock\<close>

text \<open>
  C3: when \<open>createLockFile\<close> fails, the process ends with status \<open>0\<close> in every case.
  If \<open>getLockFilePid\<close> gives a pid without error, exactly one \<open>SIGUSR1\<close> has been sent,
  to that pid; if the lock file cannot be read or its content is not a number for
  \<open>strconv.Atoi\<close>, no signal has been sent. The result of \<open>syscall.Kill\<close> changes
  nothing.
\<close>

theorem main_lock_relays_or_exits_silently:
  "(getLockFilePid contents = (pid, None)
      \<longrightarrow> main_lock (Some err) contents kill = Exited 0 [(pid, SIGUSR1)])
   \<and> (snd (getLockFilePid contents) \<noteq> None
      \<longrightarrow> main_lock (Some err) contents kill = Exited 0 [])
   \<and> (isl contents \<longrightarrow> snd (getLockFilePid contents) \<noteq> None)
   \<and> (contents = Inr bytes \<and> snd (strconv_Atoi bytes) \<noteq> None
      \<longrightarrow> snd (getLockFilePid contents) \<noteq> None)
   \<and> main_lock (Some err) contents kill
       \<in> {Exited 0 [], Exited 0 [(fst (getLockFilePid contents), SIGUSR1)]}
   \<and> main_lock (Some err) contents kill = main_lock (Some err) contents kill2"
proof -
  obtain p e where g: "getLockFilePid contents = (p, e)" by (cases "getLockFilePid contents")
  have a: "main_lock (Some err) contents kill = Exited 0 [(pid, SIGUSR1)]"
    if "getLockFilePid contents = (pid, None)"
    using that by (simp add: main_lock_def)
  have b: "main_lock (Some err) contents kill = Exited 0 []"
    if "snd (getLockFilePid contents) \<noteq> None"
    using that g by (cases e) (simp_all add: main_lock_def)
  have c: "snd (getLockFilePid contents) \<noteq> None" if "isl contents"
    using that by (cases contents) (simp_all add: getLockFilePid_def)
  have d: "snd (getLockFilePid contents) \<noteq> None"
    if "contents = Inr bytes" "snd (strconv_Atoi bytes) \<noteq> None"
    using that by (simp add: getLockFilePid_def)
  have e: "main_lock (Some err) contents kill
       \<in> {Exited 0 [], Exited 0 [(fst (getLockFilePid contents), SIGUSR1)]}"
    using g by (cases e) (simp_all add: main_lock_def)
  have f: "main_lock (Some err) contents kill = main_lock (Some err) contents kill2"
    using g by (cases e) (simp_all add: main_lock_def)
  from a b c d e f show ?thesis by blast
qed

text \<open>C3 with a lock file holding \<open>4711\<close>, one holding \<open>47x1\<close>, and an unreadable one.\<close>

theorem main_lock_relays_or_exits_silently_witness:
  "getLockFilePid (Inr ''4711'') = (4711, None)
   \<and> main_lock (Some LockError) (Inr ''4711'') (\<lambda>pid sig. Some LockError)
       = Exited 0 [(4711, SIGUSR1)]
   \<and> main_lock (Some LockError) (Inr ''4711'') (\<lambda>pid sig. None)
       = Exited 0 [(4711, SIGUSR1)]
   \<and> snd (strconv_Atoi ''47x1'') \<noteq> None
   \<and> main_lock (Some LockError) (Inr ''47x1'') (\<lambda>pid sig. None) = Exited 0 []
   \<and> isl (Inl PathError :: error + string)
   \<and> main_lock (Some LockError) (Inl PathError) (\<lambda>pid sig. None) = Exited 0 []"
proof -
  have h1: "getLockFilePid (Inr ''4711'') = (4711, None)"
    by (simp add: getLockFilePid_def strconv_Atoi_def digit_def digit_value_def less_eq_char_def)
  have h2: "snd (strconv_Atoi ''47x1'') \<noteq> None"
    by (simp add: strconv_Atoi_def digit_def digit_value_def less_eq_char_def)
  have h3: "isl (Inl PathError :: error + string)" by simp
  note t = main_lock_relays_or_exits_silently
  from t [where contents = "Inr ''4711''" and pid = 4711 and err = LockError
      and kill = "\<lambda>pid sig. Some LockError" and bytes = "''4711''" and ?kill2.0 = "\<lambda>pid sig. None"] h1
  have r1: "main_lock (Some LockError) (Inr ''4711'') (\<lambda>pid sig. Some LockError)
       = Exited 0 [(4711, SIGUSR1)]"
    and r2: "main_lock (Some LockError) (Inr ''4711'') (\<lambda>pid sig. Some LockError)
       = main_lock (Some LockError) (Inr ''4711'') (\<lambda>pid sig. None)"
    by blast+
  from t [where contents = "Inr ''47x1''" and pid = 0 and err = LockError
      and kill = "\<lambda>pid sig. None" and bytes = "''47x1''" and ?kill2.0 = "\<lambda>pid sig. None"] h2
  have r3: "main_lock (Some LockError) (Inr ''47x1'') (\<lambda>pid sig. None) = Exited 0 []"
    by blast
  from t [where contents = "Inl PathError" and pid = 0 and err = LockError
      and kill = "\<lambda>pid sig. None" and bytes = "[]" and ?kill2.0 = "\<lambda>pid sig. None"] h3
  have r4: "main_lock (Some LockError) (Inl PathError) (\<lambda>pid sig. None) = Exited 0 []"
    by blast
  from h1 r1 r2 h2 r3 h3 r4 show ?thesis by simp
qed

end
